theory Spec2Isabelle
  imports Main "HOL-Library.Sublist"
begin

section \<open>Python strings\<close>

text \<open>
  Text received from a user is a \<^typ>\<open>string\<close>; each \<^typ>\<open>char\<close> stands for one
  code point below 256, so \<^const>\<open>length\<close> is Python's \<open>len\<close> on such text. The
  functions below follow CPython on that range: \<open>str.strip\<close>, \<open>str.lower\<close>,
  \<open>str.isdigit\<close>, \<open>str.split\<close> with a one-character separator, the \<open>in\<close> test
  on strings, and \<open>int(s)\<close> in base ten (where \<open>None\<close> stands for \<open>ValueError\<close>).
\<close>

definition py_space :: "char \<Rightarrow> bool" where
  "py_space c \<longleftrightarrow> (of_char c :: nat) \<in> {9, 10, 11, 12, 13, 28, 29, 30, 31, 32, 133, 160}"

definition strip :: "string \<Rightarrow> string" where
  "strip s = rev (dropWhile py_space (rev (dropWhile py_space s)))"

definition lower_char :: "char \<Rightarrow> char" where
  "lower_char c =
     (let n = (of_char c :: nat)
      in if (65 \<le> n \<and> n \<le> 90) \<or> (192 \<le> n \<and> n \<le> 222 \<and> n \<noteq> 215)
         then char_of (n + 32) else c)"

definition lower :: "string \<Rightarrow> string" where
  "lower s = map lower_char s"

fun contains :: "string \<Rightarrow> string \<Rightarrow> bool" where
  "contains pat [] = (pat = [])"
| "contains pat (x # xs) = (prefix pat (x # xs) \<or> contains pat xs)"

fun split_on :: "char \<Rightarrow> string \<Rightarrow> string list" where
  "split_on c [] = [[]]"
| "split_on c (x # xs) =
     (if x = c then [] # split_on c xs
      else (case split_on c xs of [] \<Rightarrow> [[x]] | p # ps \<Rightarrow> (x # p) # ps))"

fun join :: "string list \<Rightarrow> string" where
  "join [] = []"
| "join [a] = a"
| "join (a # b # bs) = a @ '' '' @ join (b # bs)"

definition isdigit :: "string \<Rightarrow> bool" where
  "isdigit s \<longleftrightarrow> s \<noteq> [] \<and>
     list_all (\<lambda>c. (48 \<le> (of_char c :: nat) \<and> (of_char c :: nat) \<le> 57)
                  \<or> (of_char c :: nat) \<in> {178, 179, 185}) s"

definition int_space :: "char \<Rightarrow> bool" where
  "int_space c \<longleftrightarrow> (of_char c :: nat) \<in> {9, 10, 11, 12, 13, 32, 133, 160}"

definition digit_val :: "char \<Rightarrow> nat option" where
  "digit_val c =
     (let n = (of_char c :: nat) in if 48 \<le> n \<and> n \<le> 57 then Some (n - 48) else None)"

text \<open>The digits after the first one; a single underscore may stand between two digits.\<close>

fun digits_value :: "nat \<Rightarrow> string \<Rightarrow> nat option" where
  "digits_value acc [] = Some acc"
| "digits_value acc [c] =
     (case digit_val c of None \<Rightarrow> None | Some v \<Rightarrow> Some (10 * acc + v))"
| "digits_value acc (c # d # ds) =
     (if c = CHR ''_''
      then (case digit_val d of None \<Rightarrow> None | Some v \<Rightarrow> digits_value (10 * acc + v) ds)
      else (case digit_val c of None \<Rightarrow> None | Some v \<Rightarrow> digits_value (10 * acc + v) (d # ds)))"

definition digits_int :: "string \<Rightarrow> nat option" where
  "digits_int s =
     (case s of [] \<Rightarrow> None
      | c # cs \<Rightarrow> (case digit_val c of None \<Rightarrow> None | Some v \<Rightarrow> digits_value v cs))"

definition py_int :: "string \<Rightarrow> int option" where
  "py_int s =
     (case rev (dropWhile int_space (rev (dropWhile int_space s))) of
        [] \<Rightarrow> None
      | c # cs \<Rightarrow>
          if c = CHR ''-'' then map_option (\<lambda>n. - int n) (digits_int cs)
          else if c = CHR ''+'' then map_option int (digits_int cs)
          else map_option int (digits_int (c # cs)))"

section \<open>Escaping and rendering the post\<close>

text \<open>
  \<open>escape_markdown\<close> calls \<open>text.replace(char, '\\' + char)\<close> once for each of the
  eighteen characters, in the order of the list.
\<close>

definition backslash :: char where
  "backslash = CHR 0x5C"

definition replace_char :: "char \<Rightarrow> string \<Rightarrow> string \<Rightarrow> string" where
  "replace_char c new s = concat (map (\<lambda>x. if x = c then new else [x]) s)"

definition escape_chars :: "char list" where
  "escape_chars = [CHR ''_'', CHR ''*'', CHR ''['', CHR '']'', CHR ''('', CHR '')'', CHR ''~'',
     CHR ''`'', CHR ''>'', CHR ''#'', CHR ''+'', CHR ''-'', CHR ''='', CHR ''|'', CHR ''{'',
     CHR ''}'', CHR ''.'', CHR ''!'']"

definition escape_markdown :: "string \<Rightarrow> string" where
  "escape_markdown s = foldl (\<lambda>t c. replace_char c [backslash, c] t) s escape_chars"

text \<open>The kind of a thumbnail is one of the three that \<open>receive_thumbnail\<close> stores.\<close>

datatype media = Photo | Video | Animation

record thumb =
  thumb_type :: media
  file_id :: string

text \<open>The draft is a dictionary; a key that is not set is \<open>None\<close>.\<close>

record post_data =
  thumbnail :: "thumb option"
  video_link :: "string option"
  title :: "string option"
  schedule_time :: "(int \<times> int) option"

definition empty_post :: post_data where
  "empty_post = \<lparr>thumbnail = None, video_link = None, title = None, schedule_time = None\<rparr>"

text \<open>
  The rendered caption is a list of code points, because the fixed frame of the post has
  characters beyond 255 (box drawing and pictographs); \<open>cps\<close> embeds user text.
\<close>

definition cps :: "string \<Rightarrow> nat list" where
  "cps s = map of_char s"

definition uni_space :: "nat \<Rightarrow> bool" where
  "uni_space n \<longleftrightarrow> n \<in> {9, 10, 11, 12, 13, 28, 29, 30, 31, 32, 133, 160, 0x1680,
     0x2000, 0x2001, 0x2002, 0x2003, 0x2004, 0x2005, 0x2006, 0x2007, 0x2008, 0x2009, 0x200A,
     0x2028, 0x2029, 0x202F, 0x205F, 0x3000}"

definition strip_text :: "nat list \<Rightarrow> nat list" where
  "strip_text s = rev (dropWhile uni_space (rev (dropWhile uni_space s)))"

definition get_title :: "post_data \<Rightarrow> string" where
  "get_title d = (case title d of None \<Rightarrow> ''Untitled'' | Some x \<Rightarrow> x)"

definition get_video_link :: "post_data \<Rightarrow> string" where
  "get_video_link d = (case video_link d of None \<Rightarrow> [] | Some x \<Rightarrow> x)"

definition frame_head :: "nat list" where
  "frame_head = [0x2554] @ replicate 22 0x2550 @ [0x2557, 10] @ cps ''   '' @ [0x1F31F]
     @ cps '' *''"

definition frame_mid :: "nat list" where
  "frame_mid = cps ''* '' @ [0x1F31F, 10, 0x255A] @ replicate 22 0x2550
     @ [0x255D, 10, 10, 0x1F517] @ cps '' *Watch Now:*'' @ [10]"

definition frame_foot :: "nat list" where
  "frame_foot = [10, 10] @ replicate 20 0x2501 @ [10, 0x1F4E2] @ cps '' Join: @NeonGhost''
     @ [0x5C] @ cps ''_Network'' @ [10] @ replicate 20 0x2501"

definition format_post :: "post_data \<Rightarrow> nat list" where
  "format_post d =
     (let t = escape_markdown (get_title d);
          l = escape_markdown (get_video_link d);
          post = [10] @ frame_head @ cps t @ frame_mid @ cps l @ frame_foot
            @ [10] @ replicate 12 32
      in strip_text post)"

section \<open>The platform client\<close>

text \<open>
  A channel is identified by a numeric chat id or by a handle. Python never finds an
  \<open>int\<close> equal to a \<open>str\<close>, and neither are two values of different constructors.
\<close>

type_synonym user_id = int

datatype channel = ChanId int | ChanName string

text \<open>
  The exceptions the handlers tell apart, each with the text \<open>str(e)\<close> gives;
  \<open>OtherException\<close> is any other subclass of \<open>Exception\<close>.
\<close>

datatype py_exn = Forbidden string | BadRequest string | KeyError string | OtherException string

fun str_exn :: "py_exn \<Rightarrow> string" where
  "str_exn (Forbidden m) = m"
| "str_exn (BadRequest m) = m"
| "str_exn (KeyError k) = [CHR 0x27] @ k @ [CHR 0x27]"
| "str_exn (OtherException m) = m"

text \<open>
  The member object of \<open>get_chat_member\<close>: \<open>can_post_messages\<close> is \<open>None\<close> when the
  object has no such attribute (\<open>hasattr\<close> is false), and \<open>Some v\<close> when it has one whose
  value \<open>v\<close> is \<open>None\<close>, \<open>True\<close> or \<open>False\<close>. The client library builds the object of
  an administrator with the attribute in every case; its value is \<open>None\<close> when the
  platform leaves the flag out, as it does for chats that are not channels.
\<close>

record chat_member =
  status :: string
  can_post_messages :: "bool option option"

record chat =
  chat_title :: "string option option"

text \<open>
  The platform answers each call with a value or an exception; within one run of a
  handler its answer depends on the arguments of the call only. The calls a function
  issues are logged in the order they are made. Log lines are left out.
\<close>

record platform =
  get_chat_member :: "channel \<Rightarrow> py_exn + chat_member"
  get_chat :: "channel \<Rightarrow> py_exn + chat"
  send_photo :: "channel \<Rightarrow> string \<Rightarrow> nat list \<Rightarrow> py_exn + unit"
  send_video :: "channel \<Rightarrow> string \<Rightarrow> nat list \<Rightarrow> py_exn + unit"
  send_animation :: "channel \<Rightarrow> string \<Rightarrow> nat list \<Rightarrow> py_exn + unit"

datatype call =
    GetChatMember channel
  | GetChat channel
  | SendPhoto channel string "nat list"
  | SendVideo channel string "nat list"
  | SendAnimation channel string "nat list"

definition no_post_permission :: string where
  "no_post_permission = ''Bot doesn'' @ [CHR 0x27] @ ''t have '' @ [CHR 0x27]
     @ ''Post Messages'' @ [CHR 0x27] @ '' permission''"

definition verify_bot_admin :: "platform \<Rightarrow> channel \<Rightarrow> bool \<times> string option" where
  "verify_bot_admin p chat_id =
     (case get_chat_member p chat_id of
        Inr bot_member \<Rightarrow>
          if status bot_member \<in> set [''administrator'', ''creator''] then
            if status bot_member = ''creator'' then (True, None)
            else (case can_post_messages bot_member of
                    Some flag \<Rightarrow>
                      if flag = Some True \<or> status bot_member = ''creator'' then (True, None)
                      else (False, Some no_post_permission)
                  | None \<Rightarrow> (True, None))
          else (False, Some (''Bot is not an admin (Status: '' @ status bot_member @ '')''))
      | Inl (Forbidden m) \<Rightarrow> (False, Some ''Bot is not a member of this channel'')
      | Inl (BadRequest m) \<Rightarrow>
          if contains ''chat not found'' (lower m)
          then (False, Some ''Channel not found or bot was removed'')
          else (False, Some (''Cannot access channel: '' @ m))
      | Inl e \<Rightarrow> (False, Some (''Error checking permissions: '' @ str_exn e)))"

text \<open>The name shown for a channel: the chat's title, or \<open>str(chat_id)\<close>.\<close>

datatype py_name = Title "string option" | StrOf channel

definition get_chat_info :: "platform \<Rightarrow> channel \<Rightarrow> py_name \<times> string option" where
  "get_chat_info p chat_id =
     (case get_chat p chat_id of
        Inr c \<Rightarrow> ((case chat_title c of Some t \<Rightarrow> Title t | None \<Rightarrow> StrOf chat_id), None)
      | Inl e \<Rightarrow> (StrOf chat_id, Some (str_exn e)))"

section \<open>The stores\<close>

text \<open>
  \<open>posts_data\<close> and \<open>user_channels\<close> are the two module-level dictionaries; \<open>jobs\<close>
  are the jobs added to the scheduler. The job id \<open>post_<user>_<timestamp>\<close> is kept as
  the pair of the user and the text of the timestamp.
\<close>

record job =
  job_id :: "user_id \<times> string"
  job_hour :: int
  job_minute :: int
  job_user :: user_id

record bot =
  posts_data :: "user_id \<rightharpoonup> post_data"
  user_channels :: "user_id \<rightharpoonup> channel list"
  jobs :: "job list"

definition channels_of :: "bot \<Rightarrow> user_id \<Rightarrow> channel list" where
  "channels_of b u = (case user_channels b u of None \<Rightarrow> [] | Some cs \<Rightarrow> cs)"

section \<open>Broadcasting\<close>

type_synonym failure = "channel \<times> string option"

record run =
  success_count :: nat
  failed_channels :: "failure list"
  calls :: "call list"

text \<open>
  The send that matches the kind of the thumbnail, with the call it issues. The caption is
  the same for the three kinds.
\<close>

definition send_thumbnail ::
  "platform \<Rightarrow> thumb \<Rightarrow> channel \<Rightarrow> nat list \<Rightarrow> (py_exn + unit) \<times> call" where
  "send_thumbnail p th channel caption =
     (case thumb_type th of
        Photo \<Rightarrow> (send_photo p channel (file_id th) caption,
                   SendPhoto channel (file_id th) caption)
      | Video \<Rightarrow> (send_video p channel (file_id th) caption,
                   SendVideo channel (file_id th) caption)
      | Animation \<Rightarrow> (send_animation p channel (file_id th) caption,
                   SendAnimation channel (file_id th) caption))"

text \<open>
  The body of the \<open>try\<close> of one loop iteration: the exception it raises, if any, with the
  variables as they are at that point. The pause after a send is left out.
\<close>

definition post_channel_try ::
  "platform \<Rightarrow> thumb \<Rightarrow> nat list \<Rightarrow> channel \<Rightarrow> run \<Rightarrow> py_exn option \<times> run" where
  "post_channel_try p th caption channel r =
     (let (is_admin, error) = verify_bot_admin p channel;
          r1 = r\<lparr>calls := calls r @ [GetChatMember channel]\<rparr>
      in if \<not> is_admin
         then (None, r1\<lparr>failed_channels := failed_channels r1 @ [(channel, error)]\<rparr>)
         else
           let (res, c) = send_thumbnail p th channel caption;
               r2 = r1\<lparr>calls := calls r1 @ [c]\<rparr>
           in (case res of
                 Inl e \<Rightarrow> (Some e, r2)
               | Inr _ \<Rightarrow> (None, r2\<lparr>success_count := success_count r2 + 1\<rparr>)))"

text \<open>One loop iteration with its three handlers.\<close>

definition post_channel ::
  "platform \<Rightarrow> thumb \<Rightarrow> nat list \<Rightarrow> channel \<Rightarrow> run \<Rightarrow> run" where
  "post_channel p th caption channel r =
     (case post_channel_try p th caption channel r of
        (None, r') \<Rightarrow> r'
      | (Some (Forbidden m), r') \<Rightarrow>
          r'\<lparr>failed_channels := failed_channels r'
               @ [(channel, Some ''Bot is not admin or was removed'')]\<rparr>
      | (Some (BadRequest m), r') \<Rightarrow>
          r'\<lparr>failed_channels := failed_channels r'
               @ [(channel, Some (''Invalid request: '' @ m))]\<rparr>
      | (Some e, r') \<Rightarrow>
          r'\<lparr>failed_channels := failed_channels r'
               @ [(channel, Some (''Error: '' @ take 50 (str_exn e)))]\<rparr>)"

fun post_each ::
  "platform \<Rightarrow> thumb \<Rightarrow> nat list \<Rightarrow> channel list \<Rightarrow> run \<Rightarrow> run" where
  "post_each p th caption [] r = r"
| "post_each p th caption (channel # channels) r =
     post_each p th caption channels (post_channel p th caption channel r)"

text \<open>
  The body of the outer \<open>try\<close>. An empty dictionary is false in Python, so a draft with
  no key counts as no draft. \<open>post_data['thumbnail']\<close> raises \<open>KeyError\<close> when the key
  is not set.
\<close>

definition post_to_channels_try ::
  "platform \<Rightarrow> bot \<Rightarrow> user_id \<Rightarrow> run \<Rightarrow> (py_exn + nat \<times> failure list) \<times> run" where
  "post_to_channels_try p b u r =
     (case posts_data b u of
        None \<Rightarrow> (Inr (0, [(ChanName ''N/A'', Some ''No post data'')]), r)
      | Some d \<Rightarrow>
          if d = empty_post then (Inr (0, [(ChanName ''N/A'', Some ''No post data'')]), r)
          else
            let channels = channels_of b u
            in if channels = []
               then (Inr (0, [(ChanName ''N/A'', Some ''No channels configured'')]), r)
               else
                 let caption = format_post d
                 in (case thumbnail d of
                       None \<Rightarrow> (Inl (KeyError ''thumbnail''), r)
                     | Some th \<Rightarrow>
                         let r' = post_each p th caption channels r
                         in (Inr (success_count r', failed_channels r'), r')))"

text \<open>
  The outer handler catches every exception and returns the two counters as they are.
  The result is the returned pair together with the platform calls that were issued.
\<close>

definition start_run :: run where
  "start_run = \<lparr>success_count = 0, failed_channels = [], calls = []\<rparr>"

definition post_to_channels ::
  "platform \<Rightarrow> bot \<Rightarrow> user_id \<Rightarrow> (nat \<times> failure list) \<times> call list" where
  "post_to_channels p b u =
     (case post_to_channels_try p b u start_run of
        (Inr res, r) \<Rightarrow> (res, calls r)
      | (Inl e, r) \<Rightarrow> ((success_count r, failed_channels r), calls r))"

section \<open>The wizard\<close>

datatype conv_state = THUMBNAIL | VIDEO_LINK | TITLE | SCHEDULE_TIME | CHANNELS | END

text \<open>
  The messages the bot sends, by kind, with the values they show. \<open>SCHEDULE_TIME\<close> is the
  state that waits for the choice between posting now and scheduling; \<open>CHANNELS\<close> is the
  state that waits for the time of day.
\<close>

datatype reply =
    NoChannels | AskThumbnail
  | InvalidThumbnail | ThumbnailReceived | ErrorThumbnail
  | InvalidUrl | LinkSaved | ErrorLink
  | TitleTooLong | PostReady string string | ErrorTitle
  | Posting | PostComplete nat "failure list" | SchedulePrompt
  | Scheduled string nat | InvalidTime | ErrorSchedule
  | Cancelled
  | AddUsage | InvalidChannelId
  | AddedOk py_name channel | AddedWarn py_name channel "string option"
  | AlreadyExists py_name bool
  | ForwardPlease | ForwardNoInfo
  | RemoveUsage | Removed py_name channel | NotInList
  | ChannelList "(nat \<times> channel \<times> py_name \<times> bool \<times> string option) list"

text \<open>
  A handler takes the stores, the user and the payload of the update, and returns the next
  state, the stores and the replies. A \<open>KeyError\<close> on a store is caught by the handler's
  own \<open>except\<close>, which replies and returns a state. Sending a reply is taken to
  succeed. Which handler an update reaches in a state is decided by the framework and is
  not part of the model.
\<close>

record message =
  photo :: "string list"
  video :: "string option"
  animation :: "string option"






text \<open>
  The callback of the two buttons. Any other callback data falls through both branches
  and the handler returns \<open>None\<close>.
\<close>

definition handle_post_action ::
  "platform \<Rightarrow> bot \<Rightarrow> user_id \<Rightarrow> string
     \<Rightarrow> conv_state option \<times> bot \<times> reply list \<times> call list" where
  "handle_post_action p b u data =
     (if data = ''post_now'' then
        (case post_to_channels p b u of
           ((success, failed), cs) \<Rightarrow> (Some END, b, [Posting, PostComplete success failed], cs))
      else if data = ''schedule_post'' then (Some CHANNELS, b, [SchedulePrompt], [])
      else (None, b, [], []))"

text \<open>
  \<open>hour, minute = map(int, time_str.split(':'))\<close> followed by the range check; \<open>None\<close>
  is the \<open>ValueError\<close> of a wrong number of parts, of \<open>int\<close>, or of the check.
\<close>

definition parse_time :: "string \<Rightarrow> (int \<times> int) option" where
  "parse_time time_str =
     (case split_on (CHR '':'') time_str of
        [h, m] \<Rightarrow>
          (case py_int h of
             None \<Rightarrow> None
           | Some hour \<Rightarrow>
               (case py_int m of
                  None \<Rightarrow> None
                | Some minute \<Rightarrow>
                    if \<not> (0 \<le> hour \<and> hour \<le> 23 \<and> 0 \<le> minute \<and> minute \<le> 59) then None
                    else Some (hour, minute)))
      | _ \<Rightarrow> None)"

definition receive_schedule_time ::
  "bot \<Rightarrow> user_id \<Rightarrow> string \<Rightarrow> string \<Rightarrow> conv_state \<times> bot \<times> reply list" where
  "receive_schedule_time b u txt now =
     (let time_str = strip txt
      in (case parse_time time_str of
            None \<Rightarrow> (CHANNELS, b, [InvalidTime])
          | Some (hour, minute) \<Rightarrow>
              (case posts_data b u of
                 None \<Rightarrow> (END, b, [ErrorSchedule])
               | Some d \<Rightarrow>
                   (END,
                    b\<lparr>posts_data := (posts_data b)(u \<mapsto> d\<lparr>schedule_time := Some (hour, minute)\<rparr>),
                      jobs := jobs b @ [\<lparr>job_id = (u, now), job_hour = hour,
                                         job_minute = minute, job_user = u\<rparr>]\<rparr>,
                    [Scheduled time_str (length (channels_of b u))]))))"

definition cancel :: "bot \<Rightarrow> user_id \<Rightarrow> conv_state \<times> bot \<times> reply list" where
  "cancel b u = (END, b\<lparr>posts_data := (posts_data b)(u := None)\<rparr>, [Cancelled])"

text \<open>
  The table of the conversation in \<open>run\<close>: which handler takes an update in a state.
  Updates are told apart by the filters they pass: \<open>MediaMessage\<close> passes
  \<open>PHOTO | VIDEO | Document.IMAGE | ANIMATION\<close> (with no photo, video or animation it is
  an image sent as a file); \<open>TextMessage\<close> passes \<open>TEXT & ~COMMAND\<close> and is not forwarded;
  \<open>OtherUpdate\<close> passes none of the filters. A handler that returns no state keeps the
  state. In an active conversation \<open>/cancel\<close> is the fallback and \<open>/newpost\<close> is not taken
  again. An update that no handler of the state and no fallback takes leaves the state as
  it is; no other handler of the application matches the updates listed here, so it is
  not answered.
\<close>

datatype update =
    MediaMessage message
  | TextMessage string
  | CallbackQuery string
  | NewPost
  | Cancel
  | OtherUpdate


section \<open>The channel registry\<close>

datatype forward_origin = FromChat int string | FromOther

text \<open>
  The channel named by the arguments of \<open>/addchannel\<close>; \<open>None\<close> is the
  \<open>ValueError\<close> of \<open>int(channel_input)\<close>.
\<close>

definition parse_channel :: "string \<Rightarrow> channel option" where
  "parse_channel channel_input =
     (if contains ''t.me/'' channel_input \<or> contains ''telegram.me/'' channel_input
      then Some (ChanName (''@'' @ last (split_on (CHR ''/'') channel_input)))
      else if prefix ''-100'' channel_input
              \<or> isdigit (dropWhile (\<lambda>c. c = CHR ''-'') channel_input)
      then map_option ChanId (py_int channel_input)
      else if prefix ''@'' channel_input then Some (ChanName channel_input)
      else Some (ChanName (''@'' @ channel_input)))"

definition handle_channel_forward ::
  "platform \<Rightarrow> bot \<Rightarrow> user_id \<Rightarrow> forward_origin option \<Rightarrow> bot \<times> reply list \<times> call list" where
  "handle_channel_forward p b u fwd =
     (case fwd of
        None \<Rightarrow> (b, [ForwardPlease], [])
      | Some FromOther \<Rightarrow> (b, [ForwardNoInfo], [])
      | Some (FromChat channel_id channel_title) \<Rightarrow>
          let (is_admin, error) = verify_bot_admin p (ChanId channel_id);
              b1 = (if user_channels b u = None
                    then b\<lparr>user_channels := (user_channels b)(u \<mapsto> [])\<rparr> else b)
          in if ChanId channel_id \<notin> set (channels_of b1 u)
             then (b1\<lparr>user_channels :=
                        (user_channels b1)(u \<mapsto> channels_of b1 u @ [ChanId channel_id])\<rparr>,
                   [if is_admin then AddedOk (Title (Some channel_title)) (ChanId channel_id)
                    else AddedWarn (Title (Some channel_title)) (ChanId channel_id) error],
                   [GetChatMember (ChanId channel_id)])
             else (b1, [AlreadyExists (Title (Some channel_title)) is_admin],
                   [GetChatMember (ChanId channel_id)]))"

definition add_channel ::
  "platform \<Rightarrow> bot \<Rightarrow> user_id \<Rightarrow> forward_origin option \<Rightarrow> string list
     \<Rightarrow> bot \<times> reply list \<times> call list" where
  "add_channel p b u fwd args =
     (if fwd \<noteq> None then handle_channel_forward p b u fwd
      else if args = [] then (b, [AddUsage], [])
      else
        (case parse_channel (join args) of
           None \<Rightarrow> (b, [InvalidChannelId], [])
         | Some channel \<Rightarrow>
             let (is_admin, error) = verify_bot_admin p channel;
                 (chat_name, _) = get_chat_info p channel;
                 b1 = (if user_channels b u = None
                       then b\<lparr>user_channels := (user_channels b)(u \<mapsto> [])\<rparr> else b)
             in if channel \<notin> set (channels_of b1 u)
                then (b1\<lparr>user_channels :=
                           (user_channels b1)(u \<mapsto> channels_of b1 u @ [channel])\<rparr>,
                      [if is_admin then AddedOk chat_name channel
                       else AddedWarn chat_name channel error],
                      [GetChatMember channel, GetChat channel])
                else (b1, [AlreadyExists chat_name is_admin],
                      [GetChatMember channel, GetChat channel])))"

text \<open>
  \<open>/removechannel\<close> reads an argument that starts with \<open>-\<close> as a number when \<open>int\<close>
  accepts it, and takes any other argument as it is. \<open>list.remove\<close> deletes the first
  occurrence.
\<close>

definition remove_channel ::
  "platform \<Rightarrow> bot \<Rightarrow> user_id \<Rightarrow> string list \<Rightarrow> bot \<times> reply list \<times> call list" where
  "remove_channel p b u args =
     (case args of
        [] \<Rightarrow> (b, [RemoveUsage], [])
      | channel_input # _ \<Rightarrow>
          let channel =
                (if prefix ''-'' channel_input
                 then (case py_int channel_input of
                         Some n \<Rightarrow> ChanId n | None \<Rightarrow> ChanName channel_input)
                 else ChanName channel_input)
          in if user_channels b u \<noteq> None \<and> channel \<in> set (channels_of b u)
             then (b\<lparr>user_channels := (user_channels b)(u \<mapsto> remove1 channel (channels_of b u))\<rparr>,
                   [Removed (fst (get_chat_info p channel)) channel], [GetChat channel])
             else (b, [NotInList], []))"

text \<open>\<open>/channels\<close> looks every channel of the user up again, in the stored order.\<close>

definition manage_channels :: "platform \<Rightarrow> bot \<Rightarrow> user_id \<Rightarrow> reply list \<times> call list" where
  "manage_channels p b u =
     ([ChannelList
         (map (\<lambda>(i, ch). (i, ch, fst (get_chat_info p ch), verify_bot_admin p ch))
            (enumerate 1 (channels_of b u)))],
      concat (map (\<lambda>ch. [GetChat ch, GetChatMember ch]) (channels_of b u)))"

section \<open>Auxiliary definitions and sample inputs\<close>

text \<open>What one pass of the escaping does to a single character.\<close>

definition esc1 :: "char list \<Rightarrow> char \<Rightarrow> string" where
  "esc1 cs x = (if x \<in> set cs then [backslash, x] else [x])"

text \<open>The channels whose membership was looked up, in the order of the calls.\<close>

fun looked_up :: "call list \<Rightarrow> channel list" where
  "looked_up [] = []"
| "looked_up (GetChatMember c # cs) = c # looked_up cs"
| "looked_up (_ # cs) = looked_up cs"

text \<open>A channel is delivered to when the bot is verified as admin there and the send returns.\<close>

definition delivers :: "platform \<Rightarrow> thumb \<Rightarrow> nat list \<Rightarrow> channel \<Rightarrow> bool" where
  "delivers p th caption c \<longleftrightarrow>
     fst (verify_bot_admin p c) \<and> fst (send_thumbnail p th c caption) = Inr ()"

text \<open>The invariant of the registry: no user's list holds a channel twice.\<close>

definition channels_distinct :: "bot \<Rightarrow> bool" where
  "channels_distinct b \<longleftrightarrow> (\<forall>u. distinct (channels_of b u))"

text \<open>Whether a reply says that the channel was added, and the channels a listing shows.\<close>

fun was_added :: "reply \<Rightarrow> bool" where
  "was_added (AddedOk _ _) = True"
| "was_added (AddedWarn _ _ _) = True"
| "was_added _ = False"

fun listed :: "reply list \<Rightarrow> channel list" where
  "listed [ChannelList es] = map (\<lambda>(i, ch, rest). ch) es"
| "listed _ = []"



text \<open>
  Sample inputs: a draft, stores for user 1, and two platforms.
\<close>

definition sample_draft :: post_data where
  "sample_draft = \<lparr>thumbnail = Some \<lparr>thumb_type = Photo, file_id = ''f1''\<rparr>,
     video_link = Some ''http://x.y'', title = Some ''a_b'', schedule_time = None\<rparr>"

definition draft_without_thumbnail :: post_data where
  "draft_without_thumbnail = \<lparr>thumbnail = None, video_link = Some ''http://x.y'',
     title = Some ''a_b'', schedule_time = None\<rparr>"

definition empty_bot :: bot where
  "empty_bot = \<lparr>posts_data = Map.empty, user_channels = Map.empty, jobs = []\<rparr>"

text \<open>A platform that answers every membership lookup with the same outcome.\<close>

definition answering :: "py_exn + chat_member \<Rightarrow> platform" where
  "answering r = \<lparr>get_chat_member = (\<lambda>_. r), get_chat = (\<lambda>_. Inl (BadRequest ''Chat not found'')),
     send_photo = (\<lambda>_ _ _. Inr ()), send_video = (\<lambda>_ _ _. Inr ()),
     send_animation = (\<lambda>_ _ _. Inr ())\<rparr>"

text \<open>
  On the sample platform chat 100 forbids the lookup, the send to \<open>@bad\<close> is a bad request, every
  other channel has the bot as an administrator that may post.
\<close>

definition sample_platform :: platform where
  "sample_platform =
     \<lparr>get_chat_member = (\<lambda>c. if c = ChanId 100 then Inl (Forbidden ''Forbidden'')
          else Inr \<lparr>status = ''administrator'', can_post_messages = Some (Some True)\<rparr>),
      get_chat = (\<lambda>c. Inr \<lparr>chat_title = Some (Some ''News'')\<rparr>),
      send_photo = (\<lambda>c f t. if c = ChanName ''@bad'' then Inl (BadRequest ''Chat not found'')
          else Inr ()),
      send_video = (\<lambda>c f t. Inr ()),
      send_animation = (\<lambda>c f t. Inr ())\<rparr>"

definition sample_bot :: "channel list \<Rightarrow> bot" where
  "sample_bot cs = \<lparr>posts_data = [1 \<mapsto> sample_draft], user_channels = [1 \<mapsto> cs], jobs = []\<rparr>"

section \<open>Escaping: one pass over the text\<close>

lemma replace_char_concat:
  "replace_char c new (concat xss) = concat (map (replace_char c new) xss)"
  by (induction xss) (simp_all add: replace_char_def)

lemma foldl_replace_esc1:
  "distinct cs \<Longrightarrow> backslash \<notin> set cs \<Longrightarrow>
   foldl (\<lambda>t c. replace_char c [backslash, c] t) s cs = concat (map (esc1 cs) s)"
proof (induction cs rule: rev_induct)
  case Nil
  show ?case by (induction s) (simp_all add: esc1_def)
next
  case (snoc c cs)
  then have ih: "foldl (\<lambda>t c. replace_char c [backslash, c] t) s cs = concat (map (esc1 cs) s)"
    and c: "c \<notin> set cs" "c \<noteq> backslash" by auto
  have "replace_char c [backslash, c] (esc1 cs x) = esc1 (cs @ [c]) x" for x
    using c by (auto simp: replace_char_def esc1_def)
  then show ?case
    by (simp add: ih replace_char_concat comp_def)
qed

lemma escape_chars_ok: "distinct escape_chars \<and> backslash \<notin> set escape_chars"
  by (simp add: escape_chars_def backslash_def)

lemma escape_markdown_esc1: "escape_markdown s = concat (map (esc1 escape_chars) s)"
  unfolding escape_markdown_def using escape_chars_ok by (simp add: foldl_replace_esc1)

lemma escape_markdown_Nil: "escape_markdown [] = []"
  by (simp add: escape_markdown_esc1)

lemma escape_markdown_Cons: "escape_markdown (x # xs) = esc1 escape_chars x @ escape_markdown xs"
  by (simp add: escape_markdown_esc1)

lemma escaped_preceded:
  "i < length (escape_markdown s) \<Longrightarrow> escape_markdown s ! i \<in> set escape_chars \<Longrightarrow>
   0 < i \<and> escape_markdown s ! (i - 1) = backslash"
proof (induction s arbitrary: i)
  case Nil
  then show ?case by (simp add: escape_markdown_Nil)
next
  case (Cons x xs)
  have bs: "backslash \<notin> set escape_chars" using escape_chars_ok by simp
  show ?case
  proof (cases "x \<in> set escape_chars")
    case True
    then have e: "escape_markdown (x # xs) = backslash # x # escape_markdown xs"
      by (simp add: escape_markdown_Cons esc1_def)
    show ?thesis
    proof (cases i)
      case 0
      with Cons.prems e bs show ?thesis by simp
    next
      case (Suc j)
      show ?thesis
      proof (cases j)
        case 0
        with Suc e show ?thesis by simp
      next
        case (Suc k)
        with \<open>i = Suc j\<close> Cons.prems e have "k < length (escape_markdown xs)"
          "escape_markdown xs ! k \<in> set escape_chars" by simp_all
        from Cons.IH[OF this] have "0 < k" "escape_markdown xs ! (k - 1) = backslash" by simp_all
        with Suc \<open>i = Suc j\<close> e show ?thesis by (cases k) simp_all
      qed
    qed
  next
    case False
    then have e: "escape_markdown (x # xs) = x # escape_markdown xs"
      by (simp add: escape_markdown_Cons esc1_def)
    show ?thesis
    proof (cases i)
      case 0
      with Cons.prems e False show ?thesis by simp
    next
      case (Suc k)
      with Cons.prems e have "k < length (escape_markdown xs)"
        "escape_markdown xs ! k \<in> set escape_chars" by simp_all
      from Cons.IH[OF this] have "0 < k" "escape_markdown xs ! (k - 1) = backslash" by simp_all
      with Suc e show ?thesis by (cases k) simp_all
    qed
  qed
qed

lemma length_escape_markdown:
  "length (escape_markdown s) = length s + length (filter (\<lambda>c. c \<in> set escape_chars) s)"
  by (induction s) (simp_all add: escape_markdown_Nil escape_markdown_Cons esc1_def)

lemma filter_escape_markdown:
  "filter (\<lambda>c. c \<in> set escape_chars) (escape_markdown s) = filter (\<lambda>c. c \<in> set escape_chars) s"
  using escape_chars_ok
  by (induction s) (simp_all add: escape_markdown_Nil escape_markdown_Cons esc1_def)

lemma escape_twice_longer:
  assumes "\<exists>c \<in> set s. c \<in> set escape_chars"
  shows "length (escape_markdown (escape_markdown s)) > length (escape_markdown s)"
proof -
  from assms have "filter (\<lambda>c. c \<in> set escape_chars) s \<noteq> []"
    by (auto simp: filter_empty_conv)
  then show ?thesis
    by (simp add: length_escape_markdown[of "escape_markdown s"] filter_escape_markdown)
qed

subsection \<open>The frame around the escaped text\<close>

lemma dropWhile_all_append:
  "\<forall>x\<in>set pre. P x \<Longrightarrow> dropWhile P (pre @ xs) = dropWhile P xs"
  by (induction pre) simp_all

lemma strip_text_core:
  assumes "xs \<noteq> []" "\<not> uni_space (hd xs)" "\<not> uni_space (last xs)"
    and "\<forall>x\<in>set pre. uni_space x" "\<forall>x\<in>set suf. uni_space x"
  shows "strip_text (pre @ xs @ suf) = xs"
proof -
  obtain a as where a: "xs = a # as" using assms(1) by (cases xs) auto
  have 1: "dropWhile uni_space (pre @ xs @ suf) = xs @ suf"
    using assms(2,4) a by (simp add: dropWhile_all_append)
  obtain bs b where b: "xs = bs @ [b]" using assms(1) by (cases xs rule: rev_cases) auto
  have "rev (xs @ suf) = rev suf @ rev xs" by simp
  moreover have "\<forall>x\<in>set (rev suf). uni_space x" using assms(5) by simp
  ultimately have "dropWhile uni_space (rev (xs @ suf)) = dropWhile uni_space (rev xs)"
    by (simp only: dropWhile_all_append)
  also have "\<dots> = rev xs" using assms(3) b by simp
  finally show ?thesis by (simp add: strip_text_def 1)
qed

lemma frame_head_hd: "frame_head \<noteq> [] \<and> hd frame_head = 0x2554"
  by (simp add: frame_head_def)

lemma frame_foot_last: "frame_foot \<noteq> [] \<and> last frame_foot = 0x2501"
  by (simp add: frame_foot_def)

lemma not_space_frame: "\<not> uni_space 0x2554 \<and> \<not> uni_space 0x2501"
  by (simp add: uni_space_def)

lemma space_frame: "uni_space 10 \<and> uni_space 32"
  by (simp add: uni_space_def)

lemma strip_text_frame:
  "strip_text ([10] @ (frame_head @ m @ frame_foot) @ [10] @ replicate 12 32)
     = frame_head @ m @ frame_foot"
proof (rule strip_text_core)
  show "frame_head @ m @ frame_foot \<noteq> []" using frame_head_hd by simp
  show "\<not> uni_space (hd (frame_head @ m @ frame_foot))"
    using frame_head_hd not_space_frame by (simp add: hd_append)
  show "\<not> uni_space (last (frame_head @ m @ frame_foot))"
    using frame_foot_last not_space_frame by (simp add: last_append)
  show "\<forall>x\<in>set [10]. uni_space x" using space_frame by simp
  show "\<forall>x\<in>set ([10] @ replicate 12 32). uni_space x" using space_frame by auto
qed

lemma format_post_frame:
  "format_post d = frame_head @ cps (escape_markdown (get_title d)) @ frame_mid
     @ cps (escape_markdown (get_video_link d)) @ frame_foot"
  using strip_text_frame[of "cps (escape_markdown (get_title d)) @ frame_mid
     @ cps (escape_markdown (get_video_link d))"]
  by (simp add: format_post_def Let_def)

lemma cps_segment_escaped:
  assumes "body = pre @ cps (escape_markdown s) @ suf"
    and "i < length (escape_markdown s)"
    and "body ! (length pre + i) \<in> of_char ` set escape_chars"
  shows "0 < i \<and> body ! (length pre + i - 1) = of_char backslash"
proof -
  have n: "body ! (length pre + j) = of_char (escape_markdown s ! j)"
    if "j < length (escape_markdown s)" for j
    using that assms(1) by (simp add: nth_append cps_def)
  from assms(3) n[OF assms(2)] obtain c where c: "c \<in> set escape_chars"
    "(of_char (escape_markdown s ! i) :: nat) = of_char c" by auto
  then have "escape_markdown s ! i \<in> set escape_chars" by simp
  from escaped_preceded[OF assms(2) this] have i: "0 < i"
    and b: "escape_markdown s ! (i - 1) = backslash" by simp_all
  from i assms(2) have "i - 1 < length (escape_markdown s)" by simp
  from n[OF this] b i show ?thesis by simp
qed

text \<open>
  C4. The rendered body is the fixed frame around the escaped title and the escaped link.
  Inside either segment a reserved character never stands first and always follows a
  backslash. Escaping rewrites each character of its input once, and is not idempotent:
  on a text with a reserved character a second pass gives a different, longer text.
\<close>

theorem format_post_escapes_reserved:
  "format_post d = frame_head @ cps (escape_markdown (get_title d)) @ frame_mid
       @ cps (escape_markdown (get_video_link d)) @ frame_foot
   \<and> (\<forall>i < length (escape_markdown (get_title d)).
         format_post d ! (length frame_head + i) \<in> of_char ` set escape_chars \<longrightarrow>
         0 < i \<and> format_post d ! (length frame_head + i - 1) = of_char backslash)
   \<and> (\<forall>i < length (escape_markdown (get_video_link d)).
         format_post d ! (length (frame_head @ cps (escape_markdown (get_title d)) @ frame_mid) + i)
           \<in> of_char ` set escape_chars \<longrightarrow>
         0 < i \<and> format_post d
           ! (length (frame_head @ cps (escape_markdown (get_title d)) @ frame_mid) + i - 1)
           = of_char backslash)
   \<and> (\<forall>s. escape_markdown s
         = concat (map (\<lambda>x. if x \<in> set escape_chars then [backslash, x] else [x]) s))
   \<and> (\<forall>s. (\<exists>c \<in> set s. c \<in> set escape_chars) \<longrightarrow>
         escape_markdown (escape_markdown s) \<noteq> escape_markdown s)"
proof (intro conjI allI impI)
  show "format_post d = frame_head @ cps (escape_markdown (get_title d)) @ frame_mid
       @ cps (escape_markdown (get_video_link d)) @ frame_foot"
    by (rule format_post_frame)
next
  fix i assume "i < length (escape_markdown (get_title d))"
    "format_post d ! (length frame_head + i) \<in> of_char ` set escape_chars"
  from cps_segment_escaped[OF format_post_frame this]
  show "0 < i" "format_post d ! (length frame_head + i - 1) = of_char backslash" by simp_all
next
  fix i
  let ?pre = "frame_head @ cps (escape_markdown (get_title d)) @ frame_mid"
  assume a: "i < length (escape_markdown (get_video_link d))"
    "format_post d ! (length ?pre + i) \<in> of_char ` set escape_chars"
  have "format_post d = ?pre @ cps (escape_markdown (get_video_link d)) @ frame_foot"
    by (simp add: format_post_frame)
  from cps_segment_escaped[OF this a]
  show "0 < i" "format_post d ! (length ?pre + i - 1) = of_char backslash" by simp_all
next
  fix s
  have "esc1 escape_chars = (\<lambda>x. if x \<in> set escape_chars then [backslash, x] else [x])"
    by (rule ext) (simp add: esc1_def)
  then show "escape_markdown s
      = concat (map (\<lambda>x. if x \<in> set escape_chars then [backslash, x] else [x]) s)"
    by (simp add: escape_markdown_esc1)
next
  fix s assume "\<exists>c \<in> set s. c \<in> set escape_chars"
  from escape_twice_longer[OF this]
  show "escape_markdown (escape_markdown s) \<noteq> escape_markdown s" by auto
qed

lemma escape_sample_title:
  "escape_markdown ''a_b'' = [CHR ''a'', backslash, CHR ''_'', CHR ''b'']"
  by (simp add: escape_markdown_Nil escape_markdown_Cons esc1_def escape_chars_def)

lemma escape_sample_link:
  "escape_markdown ''http://x.y''
     = ''http://x'' @ [backslash, CHR ''.'', CHR ''y'']"
  by (simp add: escape_markdown_Nil escape_markdown_Cons esc1_def escape_chars_def)

theorem format_post_escapes_reserved_witness:
  "format_post sample_draft ! (length frame_head + 2) = of_char (CHR ''_'')
   \<and> CHR ''_'' \<in> set escape_chars
   \<and> format_post sample_draft ! (length frame_head + 2 - 1) = of_char backslash
   \<and> format_post sample_draft
        ! (length (frame_head @ cps (escape_markdown (get_title sample_draft)) @ frame_mid) + 9)
       = of_char (CHR ''.'')
   \<and> CHR ''.'' \<in> set escape_chars
   \<and> format_post sample_draft
        ! (length (frame_head @ cps (escape_markdown (get_title sample_draft)) @ frame_mid) + 9 - 1)
       = of_char backslash
   \<and> escape_markdown (escape_markdown ''a_b'') \<noteq> escape_markdown ''a_b''"
proof -
  note t = format_post_escapes_reserved[of sample_draft]
  let ?pre = "frame_head @ cps (escape_markdown (get_title sample_draft)) @ frame_mid"
  have gt: "get_title sample_draft = ''a_b''" and gl: "get_video_link sample_draft = ''http://x.y''"
    by (simp_all add: get_title_def get_video_link_def sample_draft_def)
  have r: "CHR ''_'' \<in> set escape_chars" "CHR ''.'' \<in> set escape_chars"
    by (simp_all add: escape_chars_def)
  from t have f: "format_post sample_draft = frame_head @ cps (escape_markdown ''a_b'') @ frame_mid
       @ cps (escape_markdown ''http://x.y'') @ frame_foot"
    by (simp add: gt gl)
  have a: "format_post sample_draft ! (length frame_head + 2) = of_char (CHR ''_'')"
    unfolding f nth_append_length_plus by (simp add: escape_sample_title cps_def)
  have f': "format_post sample_draft = ?pre @ cps (escape_markdown ''http://x.y'') @ frame_foot"
    by (simp add: f gt)
  have b: "format_post sample_draft ! (length ?pre + 9) = of_char (CHR ''.'')"
    unfolding f' nth_append_length_plus by (simp add: escape_sample_link cps_def)
  have la: "2 < length (escape_markdown (get_title sample_draft))"
    by (simp add: gt escape_sample_title)
  have lb: "9 < length (escape_markdown (get_video_link sample_draft))"
    by (simp add: gl escape_sample_link)
  from t la a r have c1: "format_post sample_draft ! (length frame_head + 2 - 1) = of_char backslash"
    by blast
  from t lb b r have c2: "format_post sample_draft ! (length ?pre + 9 - 1) = of_char backslash"
    by blast
  have "\<exists>c \<in> set ''a_b''. c \<in> set escape_chars" using r by simp
  with t have c3: "escape_markdown (escape_markdown ''a_b'') \<noteq> escape_markdown ''a_b''"
    by blast
  from a b r c1 c2 c3 show ?thesis by blast
qed

section \<open>Verification of the bot's rights\<close>

lemma contains_sublist: "contains pat s \<longleftrightarrow> sublist pat s"
proof (induction s)
  case Nil
  then show ?case by simp
next
  case (Cons x xs)
  then show ?case by (cases pat) (simp_all add: sublist_Cons_right)
qed

text \<open>
  The rows of the decision table as the code has them: the creator is admin whatever the
  flag; an administrator whose flag is present and false is refused for the missing post
  permission, and is admin when the flag is true or when the member object has no such
  attribute; any other status is refused with the status in the reason; a forbidden
  lookup is refused as not a member; a bad request whose message has \<open>chat not found\<close>
  in any letter case is refused as channel not found.
\<close>

lemma verify_bot_admin_rows:
  "(get_chat_member p c = Inr m \<and> status m = ''creator''
      \<longrightarrow> verify_bot_admin p c = (True, None))
   \<and> (get_chat_member p c = Inr m \<and> status m = ''administrator''
        \<and> can_post_messages m = Some (Some False)
      \<longrightarrow> verify_bot_admin p c = (False, Some no_post_permission))
   \<and> (get_chat_member p c = Inr m \<and> status m = ''administrator''
        \<and> (can_post_messages m = Some (Some True) \<or> can_post_messages m = None)
      \<longrightarrow> verify_bot_admin p c = (True, None))
   \<and> (get_chat_member p c = Inr m \<and> status m \<noteq> ''administrator'' \<and> status m \<noteq> ''creator''
      \<longrightarrow> verify_bot_admin p c
            = (False, Some (''Bot is not an admin (Status: '' @ status m @ '')'')))
   \<and> (get_chat_member p c = Inl (Forbidden e)
      \<longrightarrow> verify_bot_admin p c = (False, Some ''Bot is not a member of this channel''))
   \<and> (get_chat_member p c = Inl (BadRequest e) \<and> sublist ''chat not found'' (lower e)
      \<longrightarrow> verify_bot_admin p c = (False, Some ''Channel not found or bot was removed''))"
proof (intro conjI impI)
  assume "get_chat_member p c = Inr m \<and> status m = ''creator''"
  then show "verify_bot_admin p c = (True, None)"
    by (simp add: verify_bot_admin_def)
next
  assume "get_chat_member p c = Inr m \<and> status m = ''administrator''
        \<and> can_post_messages m = Some (Some False)"
  then show "verify_bot_admin p c = (False, Some no_post_permission)"
    by (simp add: verify_bot_admin_def)
next
  assume "get_chat_member p c = Inr m \<and> status m = ''administrator''
        \<and> (can_post_messages m = Some (Some True) \<or> can_post_messages m = None)"
  then show "verify_bot_admin p c = (True, None)"
    by (auto simp: verify_bot_admin_def)
next
  assume "get_chat_member p c = Inr m \<and> status m \<noteq> ''administrator'' \<and> status m \<noteq> ''creator''"
  then show "verify_bot_admin p c
            = (False, Some (''Bot is not an admin (Status: '' @ status m @ '')''))"
    by (simp add: verify_bot_admin_def)
next
  assume "get_chat_member p c = Inl (Forbidden e)"
  then show "verify_bot_admin p c = (False, Some ''Bot is not a member of this channel'')"
    by (simp add: verify_bot_admin_def)
next
  assume "get_chat_member p c = Inl (BadRequest e) \<and> sublist ''chat not found'' (lower e)"
  then show "verify_bot_admin p c = (False, Some ''Channel not found or bot was removed'')"
    by (simp add: verify_bot_admin_def contains_sublist)
qed

text \<open>A flag that is present with the value \<open>None\<close> counts as false.\<close>

lemma verify_bot_admin_flag_without_value:
  "get_chat_member p c = Inr m \<Longrightarrow> status m = ''administrator''
     \<Longrightarrow> can_post_messages m = Some None
     \<Longrightarrow> verify_bot_admin p c = (False, Some no_post_permission)"
  by (simp add: verify_bot_admin_def)

lemma lower_sample: "lower ''Chat not found'' = ''chat not found''"
  by code_simp

lemma verify_bot_admin_rows_sample:
  "verify_bot_admin (answering (Inr \<lparr>status = ''creator'', can_post_messages = Some (Some False)\<rparr>))
      (ChanId 100) = (True, None)
   \<and> verify_bot_admin
        (answering (Inr \<lparr>status = ''administrator'', can_post_messages = Some (Some False)\<rparr>))
        (ChanId 100) = (False, Some no_post_permission)
   \<and> verify_bot_admin
        (answering (Inr \<lparr>status = ''administrator'', can_post_messages = Some (Some True)\<rparr>))
        (ChanId 100) = (True, None)
   \<and> verify_bot_admin (answering (Inr \<lparr>status = ''administrator'', can_post_messages = None\<rparr>))
        (ChanId 100) = (True, None)
   \<and> verify_bot_admin (answering (Inr \<lparr>status = ''member'', can_post_messages = None\<rparr>))
        (ChanId 100) = (False, Some ''Bot is not an admin (Status: member)'')
   \<and> verify_bot_admin (answering (Inl (Forbidden ''Forbidden: bot is not a member'')))
        (ChanId 100) = (False, Some ''Bot is not a member of this channel'')
   \<and> verify_bot_admin (answering (Inl (BadRequest ''Chat not found'')))
        (ChanName ''@gone'') = (False, Some ''Channel not found or bot was removed'')"
proof -
  have s: "sublist ''chat not found'' (lower ''Chat not found'')"
    by (simp add: lower_sample)
  show ?thesis
    using
      verify_bot_admin_rows[of
        "answering (Inr \<lparr>status = ''creator'', can_post_messages = Some (Some False)\<rparr>)"
        "ChanId 100" "\<lparr>status = ''creator'', can_post_messages = Some (Some False)\<rparr>"]
      verify_bot_admin_rows[of
        "answering (Inr \<lparr>status = ''administrator'', can_post_messages = Some (Some False)\<rparr>)"
        "ChanId 100" "\<lparr>status = ''administrator'', can_post_messages = Some (Some False)\<rparr>"]
      verify_bot_admin_rows[of
        "answering (Inr \<lparr>status = ''administrator'', can_post_messages = Some (Some True)\<rparr>)"
        "ChanId 100" "\<lparr>status = ''administrator'', can_post_messages = Some (Some True)\<rparr>"]
      verify_bot_admin_rows[of
        "answering (Inr \<lparr>status = ''administrator'', can_post_messages = None\<rparr>)"
        "ChanId 100" "\<lparr>status = ''administrator'', can_post_messages = None\<rparr>"]
      verify_bot_admin_rows[of
        "answering (Inr \<lparr>status = ''member'', can_post_messages = None\<rparr>)"
        "ChanId 100" "\<lparr>status = ''member'', can_post_messages = None\<rparr>"]
      verify_bot_admin_rows[of
        "answering (Inl (Forbidden ''Forbidden: bot is not a member''))"
        "ChanId 100" _ "''Forbidden: bot is not a member''"]
      verify_bot_admin_rows[of
        "answering (Inl (BadRequest ''Chat not found''))"
        "ChanName ''@gone''" _ "''Chat not found''"]
      s
    by (simp add: answering_def)
qed

text \<open>
  C5. The decision table holds row by row, but for the flag that is absent: the member
  object of an administrator whose flag the platform leaves out has the attribute with
  the value \<open>None\<close>, and for it the bot is refused for the missing post permission,
  where the table has it admitted. The branch that admits is taken only by a member
  object without the attribute.
\<close>

theorem verify_bot_admin_refuses_omitted_flag:
  "verify_bot_admin
     (answering (Inr \<lparr>status = ''administrator'', can_post_messages = Some None\<rparr>))
     (ChanId 100) = (False, Some no_post_permission)"
  by (simp add: verify_bot_admin_def answering_def)

section \<open>Broadcasting: one iteration and the loop\<close>

lemma looked_up_append: "looked_up (xs @ ys) = looked_up xs @ looked_up ys"
  by (induction xs rule: looked_up.induct) simp_all

lemma looked_up_send: "looked_up [snd (send_thumbnail p th c caption)] = []"
  by (cases "thumb_type th") (simp_all add: send_thumbnail_def)

lemma post_channel_not_admin:
  assumes "\<not> fst (verify_bot_admin p c)"
  shows "post_channel p th caption c r
    = r\<lparr>calls := calls r @ [GetChatMember c],
         failed_channels := failed_channels r @ [(c, snd (verify_bot_admin p c))]\<rparr>"
proof -
  obtain a e where v: "verify_bot_admin p c = (a, e)" by (cases "verify_bot_admin p c")
  with assms have "\<not> a" by simp
  with v show ?thesis by (simp add: post_channel_def post_channel_try_def Let_def)
qed

lemma post_channel_sent:
  assumes "delivers p th caption c"
  shows "post_channel p th caption c r
    = r\<lparr>calls := calls r @ [GetChatMember c, snd (send_thumbnail p th c caption)],
         success_count := success_count r + 1\<rparr>"
proof -
  obtain a e where v: "verify_bot_admin p c = (a, e)" by (cases "verify_bot_admin p c")
  obtain res cl where s: "send_thumbnail p th c caption = (res, cl)"
    by (cases "send_thumbnail p th c caption")
  from assms v s have "a" "res = Inr ()" by (simp_all add: delivers_def)
  with v s show ?thesis by (simp add: post_channel_def post_channel_try_def Let_def)
qed

lemma post_channel_send_raises:
  assumes "fst (verify_bot_admin p c)" "fst (send_thumbnail p th c caption) = Inl e"
  shows "\<exists>m. post_channel p th caption c r
    = r\<lparr>calls := calls r @ [GetChatMember c, snd (send_thumbnail p th c caption)],
         failed_channels := failed_channels r @ [(c, Some m)]\<rparr>"
proof -
  obtain a x where v: "verify_bot_admin p c = (a, x)" by (cases "verify_bot_admin p c")
  obtain res cl where s: "send_thumbnail p th c caption = (res, cl)"
    by (cases "send_thumbnail p th c caption")
  from assms v s have "a" "res = Inl e" by simp_all
  with v s show ?thesis
    by (cases e; simp add: post_channel_def post_channel_try_def Let_def; blast)
qed

lemma post_channel_step:
  "success_count (post_channel p th caption c r)
     = success_count r + (if delivers p th caption c then 1 else 0)
   \<and> map fst (failed_channels (post_channel p th caption c r))
     = map fst (failed_channels r) @ (if delivers p th caption c then [] else [c])
   \<and> looked_up (calls (post_channel p th caption c r)) = looked_up (calls r) @ [c]"
proof (cases "fst (verify_bot_admin p c)")
  case False
  then have "\<not> delivers p th caption c" by (simp add: delivers_def)
  with False show ?thesis
    by (simp add: post_channel_not_admin looked_up_append)
next
  case True
  show ?thesis
  proof (cases "fst (send_thumbnail p th c caption)")
    case (Inl e)
    then have nd: "\<not> delivers p th caption c" by (simp add: delivers_def)
    from post_channel_send_raises[OF True Inl] obtain m where
      "post_channel p th caption c r
        = r\<lparr>calls := calls r @ [GetChatMember c, snd (send_thumbnail p th c caption)],
             failed_channels := failed_channels r @ [(c, Some m)]\<rparr>" by blast
    with nd show ?thesis
      using looked_up_send[of p th c caption] by (simp add: looked_up_append)
  next
    case (Inr x)
    with True have d: "delivers p th caption c" by (simp add: delivers_def)
    show ?thesis
      using looked_up_send[of p th c caption]
      by (simp add: post_channel_sent[OF d] d looked_up_append)
  qed
qed

lemma post_each_totals:
  "success_count (post_each p th caption cs r)
     = success_count r + length (filter (delivers p th caption) cs)
   \<and> map fst (failed_channels (post_each p th caption cs r))
     = map fst (failed_channels r) @ filter (\<lambda>c. \<not> delivers p th caption c) cs
   \<and> looked_up (calls (post_each p th caption cs r)) = looked_up (calls r) @ cs"
proof (induction cs arbitrary: r)
  case Nil
  show ?case by simp
next
  case (Cons c cs)
  show ?case
    using Cons.IH[of "post_channel p th caption c r"] post_channel_step[of p th caption c r]
    by simp
qed

lemma post_each_verification_only:
  assumes "\<forall>c \<in> set cs. fst (verify_bot_admin p c) \<longrightarrow> fst (send_thumbnail p th c caption) = Inr ()"
  shows "success_count (post_each p th caption cs r)
     = success_count r + length (filter (\<lambda>c. fst (verify_bot_admin p c)) cs)
   \<and> failed_channels (post_each p th caption cs r)
     = failed_channels r @ map (\<lambda>c. (c, snd (verify_bot_admin p c)))
         (filter (\<lambda>c. \<not> fst (verify_bot_admin p c)) cs)"
  using assms
proof (induction cs arbitrary: r)
  case Nil
  show ?case by simp
next
  case (Cons c cs)
  then have rest: "\<forall>c \<in> set cs. fst (verify_bot_admin p c)
      \<longrightarrow> fst (send_thumbnail p th c caption) = Inr ()" by simp
  show ?case
  proof (cases "fst (verify_bot_admin p c)")
    case False
    then show ?thesis
      using Cons.IH[OF rest, of "post_channel p th caption c r"]
      by (simp add: post_channel_not_admin)
  next
    case True
    with Cons.prems have "delivers p th caption c" by (simp add: delivers_def)
    then show ?thesis
      using Cons.IH[OF rest, of "post_channel p th caption c r"] True
      by (simp add: post_channel_sent)
  qed
qed

lemma post_to_channels_complete:
  assumes "posts_data b u = Some d" "thumbnail d = Some th" "channels_of b u \<noteq> []"
  shows "post_to_channels p b u =
    (let r = post_each p th (format_post d) (channels_of b u) start_run
     in ((success_count r, failed_channels r), calls r))"
proof -
  from assms(2) have "d \<noteq> empty_post" by (auto simp: empty_post_def)
  with assms show ?thesis
    by (simp add: post_to_channels_def post_to_channels_try_def Let_def)
qed

lemma filter_count_complement:
  "length (filter P xs) = length xs - length (filter (\<lambda>x. \<not> P x) xs)"
  using sum_length_filter_compl[of P xs] by simp

section \<open>Broadcasting: the outcome\<close>

text \<open>
  C1. For a user whose draft has a thumbnail and whose channel list is not empty: when every
  channel that passes verification is sent to without error, the number of successes is
  the size of the list minus the number of channels that fail verification, and the
  failures are exactly those channels, in the order of the list, each with the reason
  its verification gave.
\<close>

theorem broadcast_counts_verification_failures:
  assumes "posts_data b u = Some d" and "thumbnail d = Some th" and "channels_of b u \<noteq> []"
    and "\<forall>c \<in> set (channels_of b u). fst (verify_bot_admin p c)
           \<longrightarrow> fst (send_thumbnail p th c (format_post d)) = Inr ()"
  shows "fst (post_to_channels p b u) =
    (length (channels_of b u)
       - length (filter (\<lambda>c. \<not> fst (verify_bot_admin p c)) (channels_of b u)),
     map (\<lambda>c. (c, snd (verify_bot_admin p c)))
       (filter (\<lambda>c. \<not> fst (verify_bot_admin p c)) (channels_of b u)))"
proof -
  let ?cs = "channels_of b u"
  let ?r = "post_each p th (format_post d) ?cs start_run"
  from post_each_verification_only[OF assms(4), of start_run]
  have "success_count ?r = length (filter (\<lambda>c. fst (verify_bot_admin p c)) ?cs)"
    and f: "failed_channels ?r = map (\<lambda>c. (c, snd (verify_bot_admin p c)))
         (filter (\<lambda>c. \<not> fst (verify_bot_admin p c)) ?cs)"
    by (simp_all add: start_run_def)
  then have "success_count ?r
      = length ?cs - length (filter (\<lambda>c. \<not> fst (verify_bot_admin p c)) ?cs)"
    by (simp add: filter_count_complement[of "\<lambda>c. fst (verify_bot_admin p c)"])
  with f show ?thesis
    by (simp add: post_to_channels_complete[OF assms(1,2,3)] Let_def)
qed

lemma verify_sample_100:
  "verify_bot_admin sample_platform (ChanId 100)
     = (False, Some ''Bot is not a member of this channel'')"
  by (simp add: verify_bot_admin_def sample_platform_def)

lemma verify_sample_name: "verify_bot_admin sample_platform (ChanName n) = (True, None)"
  by (simp add: verify_bot_admin_def sample_platform_def)

lemma send_sample:
  "fst (send_thumbnail sample_platform \<lparr>thumb_type = Photo, file_id = ''f1''\<rparr> c t)
     = (if c = ChanName ''@bad'' then Inl (BadRequest ''Chat not found'') else Inr ())"
  by (simp add: send_thumbnail_def sample_platform_def)

lemma sample_bot_fields:
  "posts_data (sample_bot cs) 1 = Some sample_draft"
  "channels_of (sample_bot cs) 1 = cs"
  "thumbnail sample_draft = Some \<lparr>thumb_type = Photo, file_id = ''f1''\<rparr>"
  by (simp_all add: sample_bot_def channels_of_def sample_draft_def)

theorem broadcast_counts_verification_failures_witness:
  "fst (post_to_channels sample_platform (sample_bot [ChanId 100, ChanName ''@pub'']) 1)
     = (1, [(ChanId 100, Some ''Bot is not a member of this channel'')])"
proof -
  let ?th = "\<lparr>thumb_type = Photo, file_id = ''f1''\<rparr>"
  let ?b = "sample_bot [ChanId 100, ChanName ''@pub'']"
  have s: "\<forall>c \<in> set (channels_of ?b 1). fst (verify_bot_admin sample_platform c)
      \<longrightarrow> fst (send_thumbnail sample_platform ?th c (format_post sample_draft)) = Inr ()"
    by (simp add: sample_bot_fields verify_sample_100 send_sample)
  have n: "channels_of ?b 1 \<noteq> []" by (simp add: sample_bot_fields)
  from broadcast_counts_verification_failures[OF sample_bot_fields(1) sample_bot_fields(3) n s]
  show ?thesis
    by (simp add: sample_bot_fields verify_sample_100 verify_sample_name)
qed

theorem broadcast_empty_list_counterexample:
  "length (filter (\<lambda>c. \<not> fst (verify_bot_admin sample_platform c))
       (channels_of (sample_bot []) 1)) = 0
   \<and> fst (post_to_channels sample_platform (sample_bot []) 1)
       = (0, [(ChanName ''N/A'', Some ''No channels configured'')])
   \<and> length (snd (fst (post_to_channels sample_platform (sample_bot []) 1))) = 1"
  by (simp add: post_to_channels_def post_to_channels_try_def sample_bot_def channels_of_def
      sample_draft_def empty_post_def)

text \<open>
  C2. With no draft (no entry, or an entry with no key) the outcome is zero successes and
  the single entry \<open>No post data\<close>; with a draft and no channel it is zero successes and
  the single entry \<open>No channels configured\<close>; in both cases no platform call is issued.
\<close>

theorem broadcast_precondition_failures:
  "(posts_data b u = None \<or> posts_data b u = Some empty_post
      \<longrightarrow> post_to_channels p b u = ((0, [(ChanName ''N/A'', Some ''No post data'')]), []))
   \<and> (posts_data b u = Some d \<and> d \<noteq> empty_post \<and> channels_of b u = []
      \<longrightarrow> post_to_channels p b u
            = ((0, [(ChanName ''N/A'', Some ''No channels configured'')]), []))
   \<and> (posts_data b u = None \<or> channels_of b u = []
      \<longrightarrow> fst (fst (post_to_channels p b u)) = 0
          \<and> length (snd (fst (post_to_channels p b u))) = 1
          \<and> snd (post_to_channels p b u) = [])"
proof (intro conjI impI)
  assume "posts_data b u = None \<or> posts_data b u = Some empty_post"
  then show "post_to_channels p b u = ((0, [(ChanName ''N/A'', Some ''No post data'')]), [])"
    by (auto simp: post_to_channels_def post_to_channels_try_def start_run_def)
next
  assume "posts_data b u = Some d \<and> d \<noteq> empty_post \<and> channels_of b u = []"
  then show "post_to_channels p b u
      = ((0, [(ChanName ''N/A'', Some ''No channels configured'')]), [])"
    by (simp add: post_to_channels_def post_to_channels_try_def start_run_def)
next
  assume a: "posts_data b u = None \<or> channels_of b u = []"
  have "post_to_channels p b u = ((0, [(ChanName ''N/A'', Some ''No post data'')]), [])
      \<or> post_to_channels p b u
          = ((0, [(ChanName ''N/A'', Some ''No channels configured'')]), [])"
  proof (cases "posts_data b u")
    case None
    then show ?thesis
      by (simp add: post_to_channels_def post_to_channels_try_def start_run_def)
  next
    case (Some d)
    with a have "channels_of b u = []" by simp
    with Some show ?thesis
      by (simp add: post_to_channels_def post_to_channels_try_def start_run_def)
  qed
  then show "fst (fst (post_to_channels p b u)) = 0"
    "length (snd (fst (post_to_channels p b u))) = 1"
    "snd (post_to_channels p b u) = []" by auto
qed

theorem broadcast_precondition_failures_witness:
  "post_to_channels sample_platform
      \<lparr>posts_data = Map.empty, user_channels = [1 \<mapsto> [ChanId 100]], jobs = []\<rparr> 1
     = ((0, [(ChanName ''N/A'', Some ''No post data'')]), [])
   \<and> post_to_channels sample_platform
      \<lparr>posts_data = [1 \<mapsto> empty_post], user_channels = [1 \<mapsto> [ChanId 100]], jobs = []\<rparr> 1
     = ((0, [(ChanName ''N/A'', Some ''No post data'')]), [])
   \<and> post_to_channels sample_platform (sample_bot []) 1
     = ((0, [(ChanName ''N/A'', Some ''No channels configured'')]), [])
   \<and> length (snd (fst (post_to_channels sample_platform (sample_bot []) 1))) = 1
   \<and> snd (post_to_channels sample_platform (sample_bot []) 1) = []"
proof -
  have ne: "sample_draft \<noteq> empty_post" by (simp add: sample_draft_def empty_post_def)
  show ?thesis
    using
      broadcast_precondition_failures[where p = sample_platform and u = 1 and b =
        "\<lparr>posts_data = Map.empty, user_channels = [1 \<mapsto> [ChanId 100]], jobs = []\<rparr>"]
      broadcast_precondition_failures[where p = sample_platform and u = 1 and b =
        "\<lparr>posts_data = [1 \<mapsto> empty_post], user_channels = [1 \<mapsto> [ChanId 100]], jobs = []\<rparr>"]
      broadcast_precondition_failures[where p = sample_platform and u = 1
        and b = "sample_bot []" and d = sample_draft]
      ne
    by (simp add: sample_bot_fields)
qed

text \<open>
  C3. With a draft that has a thumbnail and a list that is not empty, the membership of
  every channel of the list is looked up, in order, whatever fails before it; a channel
  is either counted as a success or recorded as a failure, and the recorded channels are
  those not delivered to, in order. When the body of the outer \<open>try\<close> raises, the handler
  returns the counters as they are at that point, with no entry added: zero successes,
  no failure and no platform call.
\<close>

theorem broadcast_isolates_channel_failures:
  "(posts_data b u = Some d \<and> thumbnail d = Some th \<and> channels_of b u \<noteq> []
      \<longrightarrow> looked_up (snd (post_to_channels p b u)) = channels_of b u
          \<and> fst (fst (post_to_channels p b u))
              = length (filter (delivers p th (format_post d)) (channels_of b u))
          \<and> map fst (snd (fst (post_to_channels p b u)))
              = filter (\<lambda>c. \<not> delivers p th (format_post d) c) (channels_of b u))
   \<and> (fst (post_to_channels_try p b u start_run) = Inl e
      \<longrightarrow> post_to_channels p b u = ((0, []), []))"
proof (intro conjI impI)
  assume a: "posts_data b u = Some d \<and> thumbnail d = Some th \<and> channels_of b u \<noteq> []"
  then have c: "post_to_channels p b u =
    (let r = post_each p th (format_post d) (channels_of b u) start_run
     in ((success_count r, failed_channels r), calls r))"
    by (simp add: post_to_channels_complete)
  note t = post_each_totals[of p th "format_post d" "channels_of b u" start_run]
  from t show "looked_up (snd (post_to_channels p b u)) = channels_of b u"
    by (simp add: c Let_def start_run_def)
  from t show "fst (fst (post_to_channels p b u))
      = length (filter (delivers p th (format_post d)) (channels_of b u))"
    by (simp add: c Let_def start_run_def)
  from t show "map fst (snd (fst (post_to_channels p b u)))
      = filter (\<lambda>c. \<not> delivers p th (format_post d) c) (channels_of b u)"
    by (simp add: c Let_def start_run_def)
next
  assume "fst (post_to_channels_try p b u start_run) = Inl e"
  then have "post_to_channels_try p b u start_run = (Inl e, start_run)"
    by (auto simp: post_to_channels_try_def Let_def split: option.splits if_splits)
  then show "post_to_channels p b u = ((0, []), [])"
    by (simp add: post_to_channels_def start_run_def)
qed

lemma delivers_sample:
  "\<not> delivers sample_platform \<lparr>thumb_type = Photo, file_id = ''f1''\<rparr> t (ChanId 100)"
  "\<not> delivers sample_platform \<lparr>thumb_type = Photo, file_id = ''f1''\<rparr> t (ChanName ''@bad'')"
  "delivers sample_platform \<lparr>thumb_type = Photo, file_id = ''f1''\<rparr> t (ChanName ''@pub'')"
  by (simp_all add: delivers_def verify_sample_100 verify_sample_name send_sample)

lemma faulty_try:
  "post_to_channels_try sample_platform
     \<lparr>posts_data = [1 \<mapsto> draft_without_thumbnail], user_channels = [1 \<mapsto> [ChanName ''@pub'']],
      jobs = []\<rparr> 1 start_run = (Inl (KeyError ''thumbnail''), start_run)"
  by (simp add: post_to_channels_try_def draft_without_thumbnail_def empty_post_def
      channels_of_def)

theorem broadcast_isolates_channel_failures_witness:
  "looked_up (snd (post_to_channels sample_platform
       (sample_bot [ChanId 100, ChanName ''@bad'', ChanName ''@pub'']) 1))
     = [ChanId 100, ChanName ''@bad'', ChanName ''@pub'']
   \<and> fst (fst (post_to_channels sample_platform
       (sample_bot [ChanId 100, ChanName ''@bad'', ChanName ''@pub'']) 1)) = 1
   \<and> map fst (snd (fst (post_to_channels sample_platform
       (sample_bot [ChanId 100, ChanName ''@bad'', ChanName ''@pub'']) 1)))
     = [ChanId 100, ChanName ''@bad'']
   \<and> fst (post_to_channels_try sample_platform
       \<lparr>posts_data = [1 \<mapsto> draft_without_thumbnail],
        user_channels = [1 \<mapsto> [ChanName ''@pub'']], jobs = []\<rparr> 1 start_run)
     = Inl (KeyError ''thumbnail'')
   \<and> post_to_channels sample_platform
       \<lparr>posts_data = [1 \<mapsto> draft_without_thumbnail],
        user_channels = [1 \<mapsto> [ChanName ''@pub'']], jobs = []\<rparr> 1 = ((0, []), [])"
  using
    broadcast_isolates_channel_failures[where p = sample_platform and u = 1
      and b = "sample_bot [ChanId 100, ChanName ''@bad'', ChanName ''@pub'']"
      and d = sample_draft and th = "\<lparr>thumb_type = Photo, file_id = ''f1''\<rparr>"]
    broadcast_isolates_channel_failures[where p = sample_platform and u = 1
      and b = "\<lparr>posts_data = [1 \<mapsto> draft_without_thumbnail],
        user_channels = [1 \<mapsto> [ChanName ''@pub'']], jobs = []\<rparr>"
      and e = "KeyError ''thumbnail''"]
  by (simp add: sample_bot_fields delivers_sample faulty_try)

theorem broadcast_fault_adds_no_entry_counterexample:
  "fst (post_to_channels_try sample_platform
       \<lparr>posts_data = [1 \<mapsto> draft_without_thumbnail],
        user_channels = [1 \<mapsto> [ChanName ''@pub'']], jobs = []\<rparr> 1 start_run)
     = Inl (KeyError ''thumbnail'')
   \<and> snd (fst (post_to_channels sample_platform
       \<lparr>posts_data = [1 \<mapsto> draft_without_thumbnail],
        user_channels = [1 \<mapsto> [ChanName ''@pub'']], jobs = []\<rparr> 1)) = []"
  unfolding post_to_channels_def faulty_try by (simp add: start_run_def)

section \<open>The wizard: rejected input and the life of the draft\<close>










text \<open>
  C9. Cancelling removes the user's draft, and a broadcast after it finds no draft. Posting
  now leaves both stores as they are, so the draft is still there after the post.
\<close>

theorem draft_removed_by_cancel_kept_by_post:
  "posts_data (fst (snd (cancel b u))) u = None
   \<and> post_to_channels p (fst (snd (cancel b u))) u
       = ((0, [(ChanName ''N/A'', Some ''No post data'')]), [])
   \<and> fst (snd (handle_post_action p b u ''post_now'')) = b"
  by (simp add: cancel_def handle_post_action_def post_to_channels_def
      post_to_channels_try_def start_run_def split: prod.splits)

lemma post_sample_pub:
  "fst (post_to_channels sample_platform (sample_bot [ChanName ''@pub'']) 1) = (1, [])"
proof -
  let ?th = "\<lparr>thumb_type = Photo, file_id = ''f1''\<rparr>"
  have "post_to_channels sample_platform (sample_bot [ChanName ''@pub'']) 1 =
    (let r = post_each sample_platform ?th (format_post sample_draft) [ChanName ''@pub''] start_run
     in ((success_count r, failed_channels r), calls r))"
    using post_to_channels_complete[of "sample_bot [ChanName ''@pub'']" 1 sample_draft ?th
        sample_platform]
    by (simp add: sample_bot_fields)
  then show ?thesis
    by (simp add: Let_def post_channel_sent[OF delivers_sample(3)] start_run_def)
qed

theorem draft_removed_by_cancel_kept_by_post_witness:
  "posts_data (fst (snd (cancel (sample_bot [ChanName ''@pub'']) 1))) 1 = None
   \<and> post_to_channels sample_platform (fst (snd (cancel (sample_bot [ChanName ''@pub'']) 1))) 1
       = ((0, [(ChanName ''N/A'', Some ''No post data'')]), [])
   \<and> fst (snd (handle_post_action sample_platform (sample_bot [ChanName ''@pub'']) 1 ''post_now''))
       = sample_bot [ChanName ''@pub'']"
  using draft_removed_by_cancel_kept_by_post[of "sample_bot [ChanName ''@pub'']" 1 sample_platform]
  by simp

theorem draft_kept_after_post_counterexample:
  "fst (handle_post_action sample_platform (sample_bot [ChanName ''@pub'']) 1 ''post_now'')
     = Some END
   \<and> fst (snd (snd (handle_post_action sample_platform (sample_bot [ChanName ''@pub'']) 1
        ''post_now''))) = [Posting, PostComplete 1 []]
   \<and> posts_data (fst (snd (handle_post_action sample_platform (sample_bot [ChanName ''@pub''])
        1 ''post_now''))) 1 = Some sample_draft
   \<and> fst (post_to_channels sample_platform
        (fst (snd (handle_post_action sample_platform (sample_bot [ChanName ''@pub'']) 1
           ''post_now''))) 1) = (1, [])"
proof -
  obtain cs where "post_to_channels sample_platform (sample_bot [ChanName ''@pub'']) 1
      = ((1, []), cs)"
    using post_sample_pub by (cases "post_to_channels sample_platform (sample_bot [ChanName ''@pub'']) 1") auto
  then have "handle_post_action sample_platform (sample_bot [ChanName ''@pub'']) 1 ''post_now''
      = (Some END, sample_bot [ChanName ''@pub''], [Posting, PostComplete 1 []], cs)"
    by (simp add: handle_post_action_def)
  then show ?thesis by (simp add: post_sample_pub sample_bot_fields)
qed

section \<open>The time of day of a schedule\<close>

lemma split_on_nonempty: "split_on c s \<noteq> []"
  by (induction s) (auto split: list.splits)

lemma split_on_no_sep: "c \<notin> set s \<Longrightarrow> split_on c s = [s]"
  by (induction s) auto

lemma split_on_first: "c \<notin> set h \<Longrightarrow> split_on c (h @ c # m) = h # split_on c m"
  by (induction h) auto

lemma split_on_two:
  "c \<notin> set h \<Longrightarrow> c \<notin> set m \<Longrightarrow> split_on c (h @ c # m) = [h, m]"
  by (simp add: split_on_first split_on_no_sep)

lemma length_split_on: "length (split_on c s) = Suc (length (filter (\<lambda>x. x = c) s))"
  using split_on_nonempty[of c] by (induction s) (auto split: list.splits)

lemma filter_dropWhile:
  "(\<And>x. Q x \<Longrightarrow> \<not> P x) \<Longrightarrow> filter P (dropWhile Q xs) = filter P xs"
  by (induction xs) auto

lemma colon_not_space: "py_space x \<Longrightarrow> x \<noteq> CHR '':''"
  by (auto simp: py_space_def)

lemma filter_colon_strip:
  "filter (\<lambda>x. x = CHR '':'') (strip s) = filter (\<lambda>x. x = CHR '':'') s"
proof -
  have d: "filter (\<lambda>x. x = CHR '':'') (dropWhile py_space xs) = filter (\<lambda>x. x = CHR '':'') xs"
    for xs
    by (rule filter_dropWhile) (simp add: colon_not_space)
  have "filter (\<lambda>x. x = CHR '':'') (strip s)
      = rev (filter (\<lambda>x. x = CHR '':'') (dropWhile py_space (rev (dropWhile py_space s))))"
    unfolding strip_def by (rule rev_filter[symmetric])
  also have "\<dots> = rev (filter (\<lambda>x. x = CHR '':'') (rev (dropWhile py_space s)))"
    by (simp only: d)
  also have "\<dots> = filter (\<lambda>x. x = CHR '':'') (dropWhile py_space s)"
    by (simp only: rev_filter rev_rev_ident)
  finally show ?thesis by (simp only: d)
qed
lemma parse_time_parts:
  "length (split_on (CHR '':'') t) \<noteq> 2 \<Longrightarrow> parse_time t = None"
  by (auto simp: parse_time_def split: list.splits)

lemma parse_time_int_fails:
  "split_on (CHR '':'') t = [h, m] \<Longrightarrow> py_int h = None \<or> py_int m = None
     \<Longrightarrow> parse_time t = None"
  by (auto simp: parse_time_def split: option.splits)

lemma parse_time_range:
  "split_on (CHR '':'') t = [h, m] \<Longrightarrow> py_int h = Some hour \<Longrightarrow> py_int m = Some minute
     \<Longrightarrow> parse_time t
       = (if 0 \<le> hour \<and> hour \<le> 23 \<and> 0 \<le> minute \<and> minute \<le> 59 then Some (hour, minute)
          else None)"
  by (simp add: parse_time_def)

lemma receive_schedule_time_reject:
  "parse_time (strip s) = None \<Longrightarrow> receive_schedule_time b u s now = (CHANNELS, b, [InvalidTime])"
  by (simp add: receive_schedule_time_def)

lemma receive_schedule_time_accept:
  "parse_time (strip s) = Some (hour, minute) \<Longrightarrow> posts_data b u = Some d \<Longrightarrow>
   receive_schedule_time b u s now =
     (END,
      b\<lparr>posts_data := (posts_data b)(u \<mapsto> d\<lparr>schedule_time := Some (hour, minute)\<rparr>),
        jobs := jobs b @ [\<lparr>job_id = (u, now), job_hour = hour, job_minute = minute,
                           job_user = u\<rparr>]\<rparr>,
      [Scheduled (strip s) (length (channels_of b u))])"
  by (simp add: receive_schedule_time_def)

lemma parse_2500: "parse_time (strip ''25:00'') = None"
  by code_simp

lemma parse_960: "parse_time (strip ''9:60'') = None"
  by code_simp

lemma parse_0900: "parse_time (strip ''09:00'') = Some (9, 0)"
  by code_simp

lemma parse_2359: "parse_time (strip ''23:59'') = Some (23, 59)"
  by code_simp

lemma parse_plus: "parse_time (strip ''+9:5'') = Some (9, 5)"
  by code_simp

lemma parse_spaced: "parse_time (strip '' 9 : 5 '') = Some (9, 5)"
  by code_simp

lemma parse_three: "parse_time (strip ''10:30:45'') = None"
  by code_simp

lemma strip_samples:
  "strip ''09:00'' = ''09:00''" "strip ''23:59'' = ''23:59''" "strip ''+9:5'' = ''+9:5''"
  "strip '' 9 : 5 '' = ''9 : 5''" "strip ''1230'' = ''1230''" "strip ''ab:00'' = ''ab:00''"
  "strip ''24:00'' = ''24:00''"
  by code_simp+

lemma py_int_samples:
  "py_int ''ab'' = None" "py_int ''24'' = Some 24" "py_int ''00'' = Some 0"
  "py_int ''09'' = Some 9" "py_int ''+9'' = Some 9" "py_int ''5'' = Some 5"
  "py_int ''9 '' = Some 9" "py_int '' 5'' = Some 5"
  by code_simp+

text \<open>
  C7. The step that reads the time of day answers with its prompt and keeps its state and
  the stores when the stripped text does not split at \<open>:\<close> into two parts, when \<open>int\<close>
  refuses a part, or when the hour is outside 0..23 or the minute outside 0..59; so it
  does for \<open>25:00\<close> and \<open>9:60\<close>. Otherwise, for a user with a draft, it stores the time,
  adds a job for that hour and minute and ends the wizard; so it does for \<open>09:00\<close> and
  \<open>23:59\<close>.
\<close>

theorem schedule_time_validation:
  "(length (split_on (CHR '':'') (strip s)) \<noteq> 2
      \<longrightarrow> receive_schedule_time b u s now = (CHANNELS, b, [InvalidTime]))
   \<and> (split_on (CHR '':'') (strip s) = [h, m] \<and> (py_int h = None \<or> py_int m = None)
      \<longrightarrow> receive_schedule_time b u s now = (CHANNELS, b, [InvalidTime]))
   \<and> (split_on (CHR '':'') (strip s) = [h, m] \<and> py_int h = Some hour \<and> py_int m = Some minute
        \<and> (hour < 0 \<or> 23 < hour \<or> minute < 0 \<or> 59 < minute)
      \<longrightarrow> receive_schedule_time b u s now = (CHANNELS, b, [InvalidTime]))
   \<and> (split_on (CHR '':'') (strip s) = [h, m] \<and> py_int h = Some hour \<and> py_int m = Some minute
        \<and> 0 \<le> hour \<and> hour \<le> 23 \<and> 0 \<le> minute \<and> minute \<le> 59 \<and> posts_data b u = Some d
      \<longrightarrow> receive_schedule_time b u s now =
           (END,
            b\<lparr>posts_data := (posts_data b)(u \<mapsto> d\<lparr>schedule_time := Some (hour, minute)\<rparr>),
              jobs := jobs b @ [\<lparr>job_id = (u, now), job_hour = hour, job_minute = minute,
                                 job_user = u\<rparr>]\<rparr>,
            [Scheduled (strip s) (length (channels_of b u))]))
   \<and> receive_schedule_time b u ''25:00'' now = (CHANNELS, b, [InvalidTime])
   \<and> receive_schedule_time b u ''9:60'' now = (CHANNELS, b, [InvalidTime])
   \<and> (posts_data b u = Some d
      \<longrightarrow> receive_schedule_time b u ''09:00'' now =
           (END,
            b\<lparr>posts_data := (posts_data b)(u \<mapsto> d\<lparr>schedule_time := Some (9, 0)\<rparr>),
              jobs := jobs b @ [\<lparr>job_id = (u, now), job_hour = 9, job_minute = 0,
                                 job_user = u\<rparr>]\<rparr>,
            [Scheduled ''09:00'' (length (channels_of b u))])
        \<and> receive_schedule_time b u ''23:59'' now =
           (END,
            b\<lparr>posts_data := (posts_data b)(u \<mapsto> d\<lparr>schedule_time := Some (23, 59)\<rparr>),
              jobs := jobs b @ [\<lparr>job_id = (u, now), job_hour = 23, job_minute = 59,
                                 job_user = u\<rparr>]\<rparr>,
            [Scheduled ''23:59'' (length (channels_of b u))]))"
proof (intro conjI impI)
  assume "length (split_on (CHR '':'') (strip s)) \<noteq> 2"
  then show "receive_schedule_time b u s now = (CHANNELS, b, [InvalidTime])"
    by (simp add: receive_schedule_time_reject parse_time_parts)
next
  assume "split_on (CHR '':'') (strip s) = [h, m] \<and> (py_int h = None \<or> py_int m = None)"
  then have "parse_time (strip s) = None" using parse_time_int_fails by blast
  then show "receive_schedule_time b u s now = (CHANNELS, b, [InvalidTime])"
    by (rule receive_schedule_time_reject)
next
  assume "split_on (CHR '':'') (strip s) = [h, m] \<and> py_int h = Some hour \<and> py_int m = Some minute
        \<and> (hour < 0 \<or> 23 < hour \<or> minute < 0 \<or> 59 < minute)"
  then have "parse_time (strip s) = None"
    using parse_time_range[of "strip s" h m hour minute] by auto
  then show "receive_schedule_time b u s now = (CHANNELS, b, [InvalidTime])"
    by (rule receive_schedule_time_reject)
next
  assume a: "split_on (CHR '':'') (strip s) = [h, m] \<and> py_int h = Some hour
        \<and> py_int m = Some minute
        \<and> 0 \<le> hour \<and> hour \<le> 23 \<and> 0 \<le> minute \<and> minute \<le> 59 \<and> posts_data b u = Some d"
  then have "parse_time (strip s) = Some (hour, minute)"
    using parse_time_range[of "strip s" h m hour minute] by simp
  with a show "receive_schedule_time b u s now =
           (END,
            b\<lparr>posts_data := (posts_data b)(u \<mapsto> d\<lparr>schedule_time := Some (hour, minute)\<rparr>),
              jobs := jobs b @ [\<lparr>job_id = (u, now), job_hour = hour, job_minute = minute,
                                 job_user = u\<rparr>]\<rparr>,
            [Scheduled (strip s) (length (channels_of b u))])"
    by (simp add: receive_schedule_time_accept)
next
  show "receive_schedule_time b u ''25:00'' now = (CHANNELS, b, [InvalidTime])"
    by (rule receive_schedule_time_reject[OF parse_2500])
  show "receive_schedule_time b u ''9:60'' now = (CHANNELS, b, [InvalidTime])"
    by (rule receive_schedule_time_reject[OF parse_960])
next
  assume d: "posts_data b u = Some d"
  show "receive_schedule_time b u ''09:00'' now =
           (END,
            b\<lparr>posts_data := (posts_data b)(u \<mapsto> d\<lparr>schedule_time := Some (9, 0)\<rparr>),
              jobs := jobs b @ [\<lparr>job_id = (u, now), job_hour = 9, job_minute = 0,
                                 job_user = u\<rparr>]\<rparr>,
            [Scheduled ''09:00'' (length (channels_of b u))])"
    using receive_schedule_time_accept[OF parse_0900 d, of now] by (simp add: strip_samples)
  show "receive_schedule_time b u ''23:59'' now =
           (END,
            b\<lparr>posts_data := (posts_data b)(u \<mapsto> d\<lparr>schedule_time := Some (23, 59)\<rparr>),
              jobs := jobs b @ [\<lparr>job_id = (u, now), job_hour = 23, job_minute = 59,
                                 job_user = u\<rparr>]\<rparr>,
            [Scheduled ''23:59'' (length (channels_of b u))])"
    using receive_schedule_time_accept[OF parse_2359 d, of now] by (simp add: strip_samples)
qed

theorem schedule_time_validation_witness:
  "receive_schedule_time (sample_bot [ChanId 100]) 1 ''1230'' ''1700000000.5''
     = (CHANNELS, sample_bot [ChanId 100], [InvalidTime])
   \<and> receive_schedule_time (sample_bot [ChanId 100]) 1 ''ab:00'' ''1700000000.5''
     = (CHANNELS, sample_bot [ChanId 100], [InvalidTime])
   \<and> receive_schedule_time (sample_bot [ChanId 100]) 1 ''24:00'' ''1700000000.5''
     = (CHANNELS, sample_bot [ChanId 100], [InvalidTime])
   \<and> receive_schedule_time (sample_bot [ChanId 100]) 1 ''+9:5'' ''1700000000.5''
     = (END,
        (sample_bot [ChanId 100])\<lparr>posts_data := (posts_data (sample_bot [ChanId 100]))
             (1 \<mapsto> sample_draft\<lparr>schedule_time := Some (9, 5)\<rparr>),
           jobs := jobs (sample_bot [ChanId 100])
             @ [\<lparr>job_id = (1, ''1700000000.5''), job_hour = 9, job_minute = 5,
                 job_user = 1\<rparr>]\<rparr>,
        [Scheduled (strip ''+9:5'') (length (channels_of (sample_bot [ChanId 100]) 1))])
   \<and> receive_schedule_time (sample_bot [ChanId 100]) 1 ''09:00'' ''1700000000.5''
     = (END,
        (sample_bot [ChanId 100])\<lparr>posts_data := (posts_data (sample_bot [ChanId 100]))
             (1 \<mapsto> sample_draft\<lparr>schedule_time := Some (9, 0)\<rparr>),
           jobs := jobs (sample_bot [ChanId 100])
             @ [\<lparr>job_id = (1, ''1700000000.5''), job_hour = 9, job_minute = 0,
                 job_user = 1\<rparr>]\<rparr>,
        [Scheduled ''09:00'' (length (channels_of (sample_bot [ChanId 100]) 1))])"
proof -
  let ?b = "sample_bot [ChanId 100]"
  have d: "posts_data ?b 1 = Some sample_draft" by (rule sample_bot_fields)
  have 1: "length (split_on (CHR '':'') (strip ''1230'')) \<noteq> 2"
    by (simp add: strip_samples)
  have 2: "split_on (CHR '':'') (strip ''ab:00'') = [''ab'', ''00'']"
    by (simp add: strip_samples)
  have 3: "split_on (CHR '':'') (strip ''24:00'') = [''24'', ''00'']"
    by (simp add: strip_samples)
  have 4: "split_on (CHR '':'') (strip ''+9:5'') = [''+9'', ''5'']"
    by (simp add: strip_samples)
  have r3: "(24::int) < 0 \<or> 23 < (24::int) \<or> (0::int) < 0 \<or> 59 < (0::int)" by simp
  have r4: "(0::int) \<le> 9" "(9::int) \<le> 23" "(0::int) \<le> 5" "(5::int) \<le> 59" by simp_all
  from 1 schedule_time_validation[where b = ?b and u = 1 and s = "''1230''"
      and now = "''1700000000.5''"]
  have c1: "receive_schedule_time ?b 1 ''1230'' ''1700000000.5'' = (CHANNELS, ?b, [InvalidTime])"
    by blast
  from 2 py_int_samples(1) schedule_time_validation[where b = ?b and u = 1 and s = "''ab:00''"
      and now = "''1700000000.5''" and h = "''ab''" and m = "''00''"]
  have c2: "receive_schedule_time ?b 1 ''ab:00'' ''1700000000.5'' = (CHANNELS, ?b, [InvalidTime])"
    by blast
  from 3 r3 py_int_samples(2,3) schedule_time_validation[where b = ?b and u = 1
      and s = "''24:00''" and now = "''1700000000.5''" and h = "''24''" and m = "''00''"
      and hour = 24 and minute = 0]
  have c3: "receive_schedule_time ?b 1 ''24:00'' ''1700000000.5'' = (CHANNELS, ?b, [InvalidTime])"
    by blast
  note t = schedule_time_validation[where b = ?b and u = 1 and s = "''+9:5''"
      and now = "''1700000000.5''" and h = "''+9''" and m = "''5''" and hour = 9
      and minute = 5 and d = sample_draft]
  from 4 r4 d py_int_samples(5,6) t
  have c4: "receive_schedule_time ?b 1 ''+9:5'' ''1700000000.5''
     = (END,
        ?b\<lparr>posts_data := (posts_data ?b)(1 \<mapsto> sample_draft\<lparr>schedule_time := Some (9, 5)\<rparr>),
           jobs := jobs ?b @ [\<lparr>job_id = (1, ''1700000000.5''), job_hour = 9, job_minute = 5,
                 job_user = 1\<rparr>]\<rparr>,
        [Scheduled (strip ''+9:5'') (length (channels_of ?b 1))])"
    by blast
  from d t
  have c5: "receive_schedule_time ?b 1 ''09:00'' ''1700000000.5''
     = (END,
        ?b\<lparr>posts_data := (posts_data ?b)(1 \<mapsto> sample_draft\<lparr>schedule_time := Some (9, 0)\<rparr>),
           jobs := jobs ?b @ [\<lparr>job_id = (1, ''1700000000.5''), job_hour = 9, job_minute = 0,
                 job_user = 1\<rparr>]\<rparr>,
        [Scheduled ''09:00'' (length (channels_of ?b 1))])"
    by blast
  from c1 c2 c3 c4 c5 show ?thesis by blast
qed

text \<open>
  C10. The step accepts more than \<open>HH:MM\<close>: whenever the stripped text has one \<open>:\<close> and
  \<open>int\<close> reads an hour in 0..23 before it and a minute in 0..59 after it, the time is
  accepted and a job is added, as for \<open>+9:5\<close> and for \<open>9 : 5\<close> between spaces. A text with
  two or more \<open>:\<close> is answered with the prompt and changes nothing, as for \<open>10:30:45\<close>.
\<close>

theorem schedule_time_accepts_python_integers:
  "(strip s = h @ '':'' @ m \<and> CHR '':'' \<notin> set h \<and> CHR '':'' \<notin> set m
        \<and> py_int h = Some hour \<and> py_int m = Some minute
        \<and> 0 \<le> hour \<and> hour \<le> 23 \<and> 0 \<le> minute \<and> minute \<le> 59 \<and> posts_data b u = Some d
      \<longrightarrow> receive_schedule_time b u s now =
           (END,
            b\<lparr>posts_data := (posts_data b)(u \<mapsto> d\<lparr>schedule_time := Some (hour, minute)\<rparr>),
              jobs := jobs b @ [\<lparr>job_id = (u, now), job_hour = hour, job_minute = minute,
                                 job_user = u\<rparr>]\<rparr>,
            [Scheduled (strip s) (length (channels_of b u))]))
   \<and> (2 \<le> length (filter (\<lambda>c. c = CHR '':'') s)
      \<longrightarrow> receive_schedule_time b u s now = (CHANNELS, b, [InvalidTime]))
   \<and> (posts_data b u = Some d
      \<longrightarrow> receive_schedule_time b u ''+9:5'' now =
           (END,
            b\<lparr>posts_data := (posts_data b)(u \<mapsto> d\<lparr>schedule_time := Some (9, 5)\<rparr>),
              jobs := jobs b @ [\<lparr>job_id = (u, now), job_hour = 9, job_minute = 5,
                                 job_user = u\<rparr>]\<rparr>,
            [Scheduled ''+9:5'' (length (channels_of b u))])
        \<and> receive_schedule_time b u '' 9 : 5 '' now =
           (END,
            b\<lparr>posts_data := (posts_data b)(u \<mapsto> d\<lparr>schedule_time := Some (9, 5)\<rparr>),
              jobs := jobs b @ [\<lparr>job_id = (u, now), job_hour = 9, job_minute = 5,
                                 job_user = u\<rparr>]\<rparr>,
            [Scheduled ''9 : 5'' (length (channels_of b u))]))
   \<and> receive_schedule_time b u ''10:30:45'' now = (CHANNELS, b, [InvalidTime])"
proof (intro conjI impI)
  assume a: "strip s = h @ '':'' @ m \<and> CHR '':'' \<notin> set h \<and> CHR '':'' \<notin> set m
        \<and> py_int h = Some hour \<and> py_int m = Some minute
        \<and> 0 \<le> hour \<and> hour \<le> 23 \<and> 0 \<le> minute \<and> minute \<le> 59 \<and> posts_data b u = Some d"
  then have "split_on (CHR '':'') (strip s) = [h, m]"
    using split_on_two[of "CHR '':''" h m] by simp
  with a have "parse_time (strip s) = Some (hour, minute)"
    using parse_time_range[of "strip s" h m hour minute] by simp
  with a show "receive_schedule_time b u s now =
           (END,
            b\<lparr>posts_data := (posts_data b)(u \<mapsto> d\<lparr>schedule_time := Some (hour, minute)\<rparr>),
              jobs := jobs b @ [\<lparr>job_id = (u, now), job_hour = hour, job_minute = minute,
                                 job_user = u\<rparr>]\<rparr>,
            [Scheduled (strip s) (length (channels_of b u))])"
    by (simp add: receive_schedule_time_accept)
next
  assume "2 \<le> length (filter (\<lambda>c. c = CHR '':'') s)"
  then have "length (split_on (CHR '':'') (strip s)) \<noteq> 2"
    by (simp add: length_split_on filter_colon_strip)
  then show "receive_schedule_time b u s now = (CHANNELS, b, [InvalidTime])"
    by (simp add: receive_schedule_time_reject parse_time_parts)
next
  assume d: "posts_data b u = Some d"
  show "receive_schedule_time b u ''+9:5'' now =
           (END,
            b\<lparr>posts_data := (posts_data b)(u \<mapsto> d\<lparr>schedule_time := Some (9, 5)\<rparr>),
              jobs := jobs b @ [\<lparr>job_id = (u, now), job_hour = 9, job_minute = 5,
                                 job_user = u\<rparr>]\<rparr>,
            [Scheduled ''+9:5'' (length (channels_of b u))])"
    using receive_schedule_time_accept[OF parse_plus d, of now] by (simp add: strip_samples)
  show "receive_schedule_time b u '' 9 : 5 '' now =
           (END,
            b\<lparr>posts_data := (posts_data b)(u \<mapsto> d\<lparr>schedule_time := Some (9, 5)\<rparr>),
              jobs := jobs b @ [\<lparr>job_id = (u, now), job_hour = 9, job_minute = 5,
                                 job_user = u\<rparr>]\<rparr>,
            [Scheduled ''9 : 5'' (length (channels_of b u))])"
    using receive_schedule_time_accept[OF parse_spaced d, of now] by (simp add: strip_samples)
next
  show "receive_schedule_time b u ''10:30:45'' now = (CHANNELS, b, [InvalidTime])"
    by (rule receive_schedule_time_reject[OF parse_three])
qed

theorem schedule_time_accepts_python_integers_witness:
  "receive_schedule_time (sample_bot [ChanId 100]) 1 '' 9 : 5 '' ''1700000000.5''
     = (END,
        (sample_bot [ChanId 100])\<lparr>posts_data := (posts_data (sample_bot [ChanId 100]))
             (1 \<mapsto> sample_draft\<lparr>schedule_time := Some (9, 5)\<rparr>),
           jobs := jobs (sample_bot [ChanId 100])
             @ [\<lparr>job_id = (1, ''1700000000.5''), job_hour = 9, job_minute = 5,
                 job_user = 1\<rparr>]\<rparr>,
        [Scheduled (strip '' 9 : 5 '') (length (channels_of (sample_bot [ChanId 100]) 1))])
   \<and> 2 \<le> length (filter (\<lambda>c. c = CHR '':'') ''1:2:3'')
   \<and> receive_schedule_time (sample_bot [ChanId 100]) 1 ''1:2:3'' ''1700000000.5''
     = (CHANNELS, sample_bot [ChanId 100], [InvalidTime])
   \<and> receive_schedule_time (sample_bot [ChanId 100]) 1 ''+9:5'' ''1700000000.5''
     = (END,
        (sample_bot [ChanId 100])\<lparr>posts_data := (posts_data (sample_bot [ChanId 100]))
             (1 \<mapsto> sample_draft\<lparr>schedule_time := Some (9, 5)\<rparr>),
           jobs := jobs (sample_bot [ChanId 100])
             @ [\<lparr>job_id = (1, ''1700000000.5''), job_hour = 9, job_minute = 5,
                 job_user = 1\<rparr>]\<rparr>,
        [Scheduled ''+9:5'' (length (channels_of (sample_bot [ChanId 100]) 1))])"
proof -
  let ?b = "sample_bot [ChanId 100]"
  have d: "posts_data ?b 1 = Some sample_draft" by (rule sample_bot_fields)
  have 1: "strip '' 9 : 5 '' = ''9 '' @ '':'' @ '' 5''" by (simp add: strip_samples)
  have n: "CHR '':'' \<notin> set ''9 ''" "CHR '':'' \<notin> set '' 5''" by simp_all
  have 2: "2 \<le> length (filter (\<lambda>c. c = CHR '':'') ''1:2:3'')" by simp
  have r: "(0::int) \<le> 9" "(9::int) \<le> 23" "(0::int) \<le> 5" "(5::int) \<le> 59" by simp_all
  note t = schedule_time_accepts_python_integers[where b = ?b and u = 1 and s = "'' 9 : 5 ''"
      and now = "''1700000000.5''" and h = "''9 ''" and m = "'' 5''" and hour = 9
      and minute = 5 and d = sample_draft]
  from 1 n r d py_int_samples(7,8) t
  have c1: "receive_schedule_time ?b 1 '' 9 : 5 '' ''1700000000.5''
     = (END,
        ?b\<lparr>posts_data := (posts_data ?b)(1 \<mapsto> sample_draft\<lparr>schedule_time := Some (9, 5)\<rparr>),
           jobs := jobs ?b @ [\<lparr>job_id = (1, ''1700000000.5''), job_hour = 9, job_minute = 5,
                 job_user = 1\<rparr>]\<rparr>,
        [Scheduled (strip '' 9 : 5 '') (length (channels_of ?b 1))])"
    by blast
  from 2 schedule_time_accepts_python_integers[where b = ?b and u = 1 and s = "''1:2:3''"
      and now = "''1700000000.5''"]
  have c2: "receive_schedule_time ?b 1 ''1:2:3'' ''1700000000.5'' = (CHANNELS, ?b, [InvalidTime])"
    by blast
  from d t
  have c3: "receive_schedule_time ?b 1 ''+9:5'' ''1700000000.5''
     = (END,
        ?b\<lparr>posts_data := (posts_data ?b)(1 \<mapsto> sample_draft\<lparr>schedule_time := Some (9, 5)\<rparr>),
           jobs := jobs ?b @ [\<lparr>job_id = (1, ''1700000000.5''), job_hour = 9, job_minute = 5,
                 job_user = 1\<rparr>]\<rparr>,
        [Scheduled ''+9:5'' (length (channels_of ?b 1))])"
    by blast
  from c1 c2 2 c3 show ?thesis by blast
qed

section \<open>The channel registry: no channel twice\<close>

lemma channels_distinct_upd:
  "channels_distinct b \<Longrightarrow> distinct cs
     \<Longrightarrow> channels_distinct (b\<lparr>user_channels := (user_channels b)(u \<mapsto> cs)\<rparr>)"
  by (simp add: channels_distinct_def channels_of_def)

lemma channels_of_upd:
  "channels_of (b\<lparr>user_channels := (user_channels b)(u \<mapsto> cs)\<rparr>) u = cs"
  by (simp add: channels_of_def)

lemma channels_of_created:
  "channels_of (if user_channels b u = None
      then b\<lparr>user_channels := (user_channels b)(u \<mapsto> [])\<rparr> else b) u = channels_of b u"
  by (simp add: channels_of_def)

lemma created_distinct:
  "channels_distinct b \<Longrightarrow> channels_distinct (if user_channels b u = None
      then b\<lparr>user_channels := (user_channels b)(u \<mapsto> [])\<rparr> else b)"
  by (simp add: channels_distinct_upd)

lemma distinct_channels_of: "channels_distinct b \<Longrightarrow> distinct (channels_of b u)"
  by (simp add: channels_distinct_def)

lemma handle_channel_forward_new:
  assumes "ChanId cid \<notin> set (channels_of b u)"
  shows "fst (handle_channel_forward p b u (Some (FromChat cid ttl)))
    = b\<lparr>user_channels := (user_channels b)(u \<mapsto> channels_of b u @ [ChanId cid])\<rparr>"
  using assms
  by (cases "user_channels b u")
    (simp_all add: handle_channel_forward_def Let_def channels_of_def split: prod.splits)

lemma handle_channel_forward_existing:
  assumes "ChanId cid \<in> set (channels_of b u)"
  shows "fst (handle_channel_forward p b u (Some (FromChat cid ttl))) = b"
  using assms
  by (cases "user_channels b u")
    (simp_all add: handle_channel_forward_def Let_def channels_of_def split: prod.splits)

lemma handle_channel_forward_distinct:
  assumes "channels_distinct b"
  shows "channels_distinct (fst (handle_channel_forward p b u fwd))"
proof (cases fwd)
  case None
  with assms show ?thesis by (simp add: handle_channel_forward_def)
next
  case (Some origin)
  show ?thesis
  proof (cases origin)
    case FromOther
    with Some assms show ?thesis by (simp add: handle_channel_forward_def)
  next
    case (FromChat cid ttl)
    show ?thesis
    proof (cases "ChanId cid \<in> set (channels_of b u)")
      case True
      with Some FromChat assms show ?thesis by (simp add: handle_channel_forward_existing)
    next
      case False
      with Some FromChat assms distinct_channels_of[OF assms, of u] show ?thesis
        by (simp add: handle_channel_forward_new channels_distinct_upd)
    qed
  qed
qed

lemma add_channel_new:
  assumes "args \<noteq> []" "parse_channel (join args) = Some ch" "ch \<notin> set (channels_of b u)"
  shows "add_channel p b u None args =
    (b\<lparr>user_channels := (user_channels b)(u \<mapsto> channels_of b u @ [ch])\<rparr>,
     [if fst (verify_bot_admin p ch) then AddedOk (fst (get_chat_info p ch)) ch
      else AddedWarn (fst (get_chat_info p ch)) ch (snd (verify_bot_admin p ch))],
     [GetChatMember ch, GetChat ch])"
  using assms
  by (cases "user_channels b u")
    (simp_all add: add_channel_def Let_def channels_of_def split: prod.splits)

lemma add_channel_existing:
  assumes "args \<noteq> []" "parse_channel (join args) = Some ch" "ch \<in> set (channels_of b u)"
  shows "add_channel p b u None args =
    (b, [AlreadyExists (fst (get_chat_info p ch)) (fst (verify_bot_admin p ch))],
     [GetChatMember ch, GetChat ch])"
  using assms
  by (cases "user_channels b u")
    (simp_all add: add_channel_def Let_def channels_of_def split: prod.splits)

lemma add_channel_distinct:
  assumes "channels_distinct b"
  shows "channels_distinct (fst (add_channel p b u fwd args))"
proof (cases "fwd \<noteq> None \<or> args = [] \<or> parse_channel (join args) = None")
  case True
  then show ?thesis
    using assms handle_channel_forward_distinct[OF assms, of p u fwd]
    by (auto simp: add_channel_def)
next
  case False
  then obtain ch where f: "fwd = None" "args \<noteq> []" "parse_channel (join args) = Some ch"
    by auto
  show ?thesis
  proof (cases "ch \<in> set (channels_of b u)")
    case True
    with f assms show ?thesis by (simp add: add_channel_existing)
  next
    case False
    with f assms distinct_channels_of[OF assms, of u] show ?thesis
      by (simp add: add_channel_new channels_distinct_upd)
  qed
qed

lemma remove_channel_distinct:
  assumes "channels_distinct b"
  shows "channels_distinct (fst (remove_channel p b u args))"
  using assms distinct_channels_of[OF assms, of u]
  by (simp add: remove_channel_def Let_def channels_distinct_upd split: list.splits)

lemma listed_manage_channels: "listed (fst (manage_channels p b u)) = channels_of b u"
proof -
  have "(\<lambda>(i, ch, rest). ch) \<circ>
      (\<lambda>(i, ch). (i, ch, fst (get_chat_info p ch), verify_bot_admin p ch))
      = (snd :: nat \<times> channel \<Rightarrow> channel)"
    by (rule ext) (simp add: split_def)
  then have "listed (fst (manage_channels p b u)) = map snd (enumerate 1 (channels_of b u))"
    by (simp add: manage_channels_def)
  then show ?thesis by (simp only: map_snd_enumerate)
qed

lemma parse_chan: "parse_channel (join [''@chan'']) = Some (ChanName ''@chan'')"
  by code_simp

text \<open>
  C6. The three operations on the registry keep every user's list free of repetitions.
  When a channel that is not in the user's list is added, the reply says it was added;
  adding it again, whatever the platform answers then, changes nothing and is answered
  with the notice that the channel exists together with the admin status just looked up;
  the listing afterwards shows the channel exactly once. \<open>@chan\<close> is read as the handle
  \<open>@chan\<close>.
\<close>

theorem channel_registered_once:
  "(channels_distinct b
      \<longrightarrow> channels_distinct (fst (add_channel p b u fwd args))
          \<and> channels_distinct (fst (handle_channel_forward p b u fwd))
          \<and> channels_distinct (fst (remove_channel p b u args)))
   \<and> (args \<noteq> [] \<and> parse_channel (join args) = Some ch \<and> ch \<notin> set (channels_of b u)
      \<longrightarrow> list_all was_added (fst (snd (add_channel p b u None args)))
          \<and> add_channel p' (fst (add_channel p b u None args)) u None args
              = (fst (add_channel p b u None args),
                 [AlreadyExists (fst (get_chat_info p' ch)) (fst (verify_bot_admin p' ch))],
                 [GetChatMember ch, GetChat ch])
          \<and> length (filter (\<lambda>c. c = ch)
                (listed (fst (manage_channels p'' (fst (add_channel p b u None args)) u)))) = 1)
   \<and> parse_channel (join [''@chan'']) = Some (ChanName ''@chan'')"
proof (intro conjI impI)
  assume d: "channels_distinct b"
  show "channels_distinct (fst (add_channel p b u fwd args))"
    using d by (rule add_channel_distinct)
  show "channels_distinct (fst (handle_channel_forward p b u fwd))"
    using d by (rule handle_channel_forward_distinct)
  show "channels_distinct (fst (remove_channel p b u args))"
    using d by (rule remove_channel_distinct)
next
  assume a: "args \<noteq> [] \<and> parse_channel (join args) = Some ch \<and> ch \<notin> set (channels_of b u)"
  let ?b1 = "b\<lparr>user_channels := (user_channels b)(u \<mapsto> channels_of b u @ [ch])\<rparr>"
  from a have n: "add_channel p b u None args =
    (?b1,
     [if fst (verify_bot_admin p ch) then AddedOk (fst (get_chat_info p ch)) ch
      else AddedWarn (fst (get_chat_info p ch)) ch (snd (verify_bot_admin p ch))],
     [GetChatMember ch, GetChat ch])"
    by (simp add: add_channel_new)
  have c: "channels_of ?b1 u = channels_of b u @ [ch]" by (rule channels_of_upd)
  show "list_all was_added (fst (snd (add_channel p b u None args)))"
    by (simp add: n)
  have "ch \<in> set (channels_of ?b1 u)" by (simp add: c)
  with a show "add_channel p' (fst (add_channel p b u None args)) u None args
      = (fst (add_channel p b u None args),
         [AlreadyExists (fst (get_chat_info p' ch)) (fst (verify_bot_admin p' ch))],
         [GetChatMember ch, GetChat ch])"
    by (simp add: n add_channel_existing)
  from a have "filter (\<lambda>c. c = ch) (channels_of b u) = []"
    by (auto simp: filter_empty_conv)
  then show "length (filter (\<lambda>c. c = ch)
      (listed (fst (manage_channels p'' (fst (add_channel p b u None args)) u)))) = 1"
    by (simp add: n listed_manage_channels c)
next
  show "parse_channel (join [''@chan'']) = Some (ChanName ''@chan'')" by (rule parse_chan)
qed

theorem channel_registered_once_witness:
  "channels_distinct empty_bot
   \<and> channels_distinct (fst (add_channel sample_platform empty_bot 1 None [''@chan'']))
   \<and> list_all was_added (fst (snd (add_channel sample_platform empty_bot 1 None [''@chan''])))
   \<and> add_channel sample_platform
        (fst (add_channel sample_platform empty_bot 1 None [''@chan''])) 1 None [''@chan'']
       = (fst (add_channel sample_platform empty_bot 1 None [''@chan'']),
          [AlreadyExists (fst (get_chat_info sample_platform (ChanName ''@chan'')))
             (fst (verify_bot_admin sample_platform (ChanName ''@chan'')))],
          [GetChatMember (ChanName ''@chan''), GetChat (ChanName ''@chan'')])
   \<and> length (filter (\<lambda>c. c = ChanName ''@chan'')
        (listed (fst (manage_channels sample_platform
           (fst (add_channel sample_platform empty_bot 1 None [''@chan''])) 1)))) = 1"
proof -
  have d: "channels_distinct empty_bot"
    by (simp add: channels_distinct_def channels_of_def empty_bot_def)
  have n: "ChanName ''@chan'' \<notin> set (channels_of empty_bot 1)"
    by (simp add: channels_of_def empty_bot_def)
  have a: "[''@chan''] \<noteq> []" by simp
  note t = channel_registered_once[where b = empty_bot and u = 1 and args = "[''@chan'']"
      and fwd = None and p = sample_platform and p' = sample_platform
      and p'' = sample_platform and ch = "ChanName ''@chan''"]
  from t d a n show ?thesis by blast
qed

end
